theory Spec2Isabelle
  imports Complex_Main "HOL-Library.Sublist"
begin

text \<open>
  A map chat front end: \<^verbatim>\<open>MapApp\<close> (map_app) holds the chat transcript and the 3D map,
  index.tsx installs the handler that sends a message to the model runtime and consumes
  the streamed answer, and the tools of the model reach the map through
  \<^verbatim>\<open>handleMapQuery\<close>. Methods are functions from the state to the state; a method that
  can throw returns the exception with the state it leaves; a callback handed to a map
  service is a function of its own, run as a later event.
\<close>

section \<open>Values of the JavaScript runtime\<close>

text \<open>
  Strings are lists of code units below 256. \<open>trim\<close> is \<^verbatim>\<open>String.prototype.trim\<close>:
  the white space among these code units is tab, line feed, vertical tab, form feed,
  carriage return, space and the no-break space (the code units from 256 on, which
  these strings do not hold, have white space of their own). A value whose static type the sources leave open (\<^verbatim>\<open>part.thought\<close>) is a
  \<open>jsval\<close>; \<open>truthy\<close> is the test an \<^verbatim>\<open>if\<close> applies to it and \<open>toString\<close> the
  conversion that \<^verbatim>\<open>' ' + v\<close> applies.
\<close>

datatype jsval = JUndefined | JBool bool | JString string

fun truthy :: "jsval \<Rightarrow> bool" where
  "truthy JUndefined = False"
| "truthy (JBool b) = b"
| "truthy (JString s) = (s \<noteq> [])"

fun toString :: "jsval \<Rightarrow> string" where
  "toString JUndefined = ''undefined''"
| "toString (JBool b) = (if b then ''true'' else ''false'')"
| "toString (JString s) = s"

text \<open>An optional string property: absent, or present with a value; the empty string is falsy.\<close>

fun truthyStr :: "string option \<Rightarrow> bool" where
  "truthyStr None = False"
| "truthyStr (Some s) = (s \<noteq> [])"

definition isWhiteSpace :: "char \<Rightarrow> bool" where
  "isWhiteSpace c =
    (c \<in> set [CHR 0x09, CHR 0x0A, CHR 0x0B, CHR 0x0C, CHR 0x0D, CHR '' '', CHR 0xA0])"

definition trim :: "string \<Rightarrow> string" where
  "trim s = rev (dropWhile isWhiteSpace (rev (dropWhile isWhiteSpace s)))"

text \<open>
  What a \<^verbatim>\<open>catch (e: unknown)\<close> can receive: an instance of \<^verbatim>\<open>Error\<close> with its
  message, or any other thrown value, with its \<^verbatim>\<open>message\<close> property if it has one (as
  the thrown object \<^verbatim>\<open>{message: "boom"}\<close> has).
\<close>

datatype thrown = ErrorInstance string | OtherThrown "string option"

section \<open>The state of the application\<close>

datatype ChatState = IDLE | GENERATING | THINKING | EXECUTING

text \<open>
  One chat turn as \<^verbatim>\<open>addMessage\<close> builds it: the \<^verbatim>\<open>div\<close> with its class list, the
  \<^verbatim>\<open>details\<close> pane (\<open>thinkingHidden\<close>: its class list holds \<^verbatim>\<open>hidden\<close>) around the
  thinking element, and the text element. \<open>thinkingHTML\<close> and \<open>textHTML\<close> are the markup
  last assigned to the \<^verbatim>\<open>innerHTML\<close> of the two elements; what a read of \<^verbatim>\<open>innerHTML\<close>
  gives is \<open>readTextHTML\<close> below.
\<close>

record turn =
  classes :: "string list"
  thinkingHidden :: bool
  thinkingHTML :: string
  textHTML :: string

record latLng =
  lat :: real
  lng :: real

record latLngAlt = latLng +
  altitude :: real

text \<open>
  Elements placed on the 3D map. Each \<^verbatim>\<open>new\<close> yields a distinct object; the first
  argument is that identity (the number of elements created before it).
\<close>

datatype mapElement =
  Marker3DElement nat latLngAlt string
| Polyline3DElement nat "latLngAlt list" string nat

record flight =
  center :: latLngAlt
  heading :: real
  tilt :: real
  range_m :: real
  durationMillis :: nat

text \<open>
  The fields of \<^verbatim>\<open>MapApp\<close> that the modelled methods touch, followed by the world
  around it: the store of turn elements (a handle is an index into \<open>elements\<close>;
  \<open>messages\<close> holds handles, as the array holds references), the children of the map
  element, the camera flights requested, and the lookups handed to the geocoder and the
  directions service whose callback has not run yet (each with the strings its callback
  closes over), and the document's serialisation of markup (\<open>domSerialise\<close>, which no
  operation changes). \<open>map_el\<close>, \<open>geocoder\<close> and \<open>directionsService\<close> say whether the
  field is set.
\<close>

record app =
  chatState :: ChatState
  inputMessage :: string
  messages :: "nat list"
  mapInitialized :: bool
  mapError :: string
  map_el :: bool
  geocoder :: bool
  directionsService :: bool
  marker :: "mapElement option"
  routePolyline :: "mapElement option"
  originMarker :: "mapElement option"
  destinationMarker :: "mapElement option"
  elements :: "turn list"
  mapChildren :: "mapElement list"
  created :: nat
  flights :: "flight list"
  geocodeRequests :: "string list"
  routeRequests :: "(string \<times> string) list"
  domSerialise :: "string \<Rightarrow> string"

section \<open>The chat transcript (map_app)\<close>

definition EXAMPLE_PROMPTS :: "string list" where
  "EXAMPLE_PROMPTS =
    [''Show me directions from Tokyo Tower to Shibuya Crossing.'',
     ''Can you show me a beautiful beach?'',
     ''Show me San Francisco'',
     ''Where is a place with a tilted tower?'',
     ''Take me to the northernmost capital city in the world'',
     ''How about the southernmost permanently inhabited settlement?'',
     ''Let's jump to Machu Picchu in Peru'']"

text \<open>
  \<open>r\<close> stands for the random draw: \<^verbatim>\<open>Math.floor(Math.random() * n)\<close> is any index
  below \<open>n\<close>, here \<open>r mod n\<close>.
\<close>

definition setNewRandomPrompt :: "nat \<Rightarrow> app \<Rightarrow> app" where
  "setNewRandomPrompt r s =
    (if length EXAMPLE_PROMPTS > 0
     then s\<lparr>inputMessage := EXAMPLE_PROMPTS ! (r mod length EXAMPLE_PROMPTS)\<rparr>
     else s)"

definition setChatState :: "ChatState \<Rightarrow> app \<Rightarrow> app" where
  "setChatState st s = s\<lparr>chatState := st\<rparr>"

text \<open>
  \<^verbatim>\<open>addMessage\<close> creates the turn, appends it to \<^verbatim>\<open>messages\<close> and returns the handles of
  its thinking pane, thinking element and text element, which all live in the one new
  turn: the handle is the number of elements created before. The role becomes a token
  of the class list; the roles the sources pass (\<^verbatim>\<open>user\<close>, \<^verbatim>\<open>assistant\<close>, \<^verbatim>\<open>error\<close>)
  hold no white space, which a class list refuses. Scrolling (\<^verbatim>\<open>scrollToTheEnd\<close>)
  changes nothing that is modelled.
\<close>

definition addMessage :: "string \<Rightarrow> string \<Rightarrow> app \<Rightarrow> nat \<times> app" where
  "addMessage role message s =
    (let h = length (elements s);
         d = \<lparr>classes = [''turn'', ''role-'' @ trim role],
              thinkingHidden = True, thinkingHTML = [], textHTML = message\<rparr>
     in (h, s\<lparr>messages := messages s @ [h], elements := elements s @ [d]\<rparr>))"

definition setTextHTML :: "nat \<Rightarrow> string \<Rightarrow> app \<Rightarrow> app" where
  "setTextHTML h html s = s\<lparr>elements := (elements s)[h := (elements s ! h)\<lparr>textHTML := html\<rparr>]\<rparr>"

definition setThinkingHTML :: "nat \<Rightarrow> string \<Rightarrow> app \<Rightarrow> app" where
  "setThinkingHTML h html s =
    s\<lparr>elements := (elements s)[h := (elements s ! h)\<lparr>thinkingHTML := html\<rparr>]\<rparr>"

definition setThinkingHidden :: "nat \<Rightarrow> bool \<Rightarrow> app \<Rightarrow> app" where
  "setThinkingHidden h b s =
    s\<lparr>elements := (elements s)[h := (elements s ! h)\<lparr>thinkingHidden := b\<rparr>]\<rparr>"

text \<open>
  A read of \<^verbatim>\<open>textElement.innerHTML\<close> gives the serialisation of what the assigned
  markup was parsed to. Markup of ASCII characters without \<^verbatim>\<open>&\<close>, \<^verbatim>\<open><\<close>, \<^verbatim>\<open>>\<close>, carriage
  return and the null character is parsed to one text node and read back as it was
  assigned; for any other markup the read gives what the document's serialisation
  gives.
\<close>

definition plainText :: "string \<Rightarrow> bool" where
  "plainText t =
    list_all (\<lambda>c. (of_char c :: nat) < 128
                  \<and> c \<notin> set [CHR 0x00, CHR 0x0D, CHR ''&'', CHR ''<'', CHR ''>'']) t"

definition readTextHTML :: "app \<Rightarrow> nat \<Rightarrow> string" where
  "readTextHTML s h =
    (let t = textHTML (elements s ! h) in if plainText t then t else domSerialise s t)"

section \<open>The send operation (index.tsx)\<close>

text \<open>
  The response stream as the loop sees it: the chunks it yields and then either its end
  or a fault (a rejected \<^verbatim>\<open>sendMessageStream\<close> is the stream with no chunk and a fault).
  A stream that neither ends nor fails is not a value of this type: on such a stream the
  handler does not return, and every property below is about send operations that end.
  The optional properties read with \<^verbatim>\<open>??\<close> and \<^verbatim>\<open>?.\<close> are options; of a tool call
  notice, which the loop only logs, the name is kept.
\<close>

record part =
  functionCall :: "string option"
  thought :: jsval
  text_of :: "string option"

record content =
  parts :: "part list option"

record candidate =
  content_of :: "content option"

record chunk =
  candidates :: "candidate list option"

record responseStream =
  chunks :: "chunk list"
  fault :: "thrown option"

record locals =
  newCode :: string
  thoughtAccumulator :: string

text \<open>
  \<open>marked_parse\<close> is \<^verbatim>\<open>marked.parse\<close>: it returns the rendered HTML or throws. A step
  that throws keeps the assignments made before the throw, so every step returns the
  state together with the exception, if any.
\<close>

type_synonym renderer = "string \<Rightarrow> thrown + string"

definition partBody :: "renderer \<Rightarrow> nat \<Rightarrow> part \<Rightarrow> locals \<times> app \<Rightarrow> thrown option \<times> locals \<times> app" where
  "partBody marked_parse h p = (\<lambda>(v, s).
    if truthy (thought p) then
      (let s1 = setChatState THINKING s;
           v1 = v\<lparr>thoughtAccumulator := thoughtAccumulator v @ '' '' @ toString (thought p)\<rparr>
       in case marked_parse (thoughtAccumulator v1) of
            Inl e \<Rightarrow> (Some e, v1, s1)
          | Inr html \<Rightarrow> (None, v1, setThinkingHidden h False (setThinkingHTML h html s1)))
    else if truthyStr (text_of p) then
      (let s1 = setChatState EXECUTING s;
           v1 = v\<lparr>newCode := newCode v @ the (text_of p)\<rparr>
       in case marked_parse (newCode v1) of
            Inl e \<Rightarrow> (Some e, v1, s1)
          | Inr html \<Rightarrow> (None, v1, setTextHTML h html s1))
    else (None, v, s))"

primrec forParts :: "renderer \<Rightarrow> nat \<Rightarrow> part list \<Rightarrow> locals \<times> app \<Rightarrow> thrown option \<times> locals \<times> app" where
  "forParts marked_parse h [] vs = (None, vs)"
| "forParts marked_parse h (p # ps) vs =
    (case partBody marked_parse h p vs of
       (Some e, vs') \<Rightarrow> (Some e, vs')
     | (None, vs') \<Rightarrow> forParts marked_parse h ps vs')"

definition candidateParts :: "candidate \<Rightarrow> part list" where
  "candidateParts c =
    (case content_of c of None \<Rightarrow> []
     | Some ct \<Rightarrow> (case parts ct of None \<Rightarrow> [] | Some ps \<Rightarrow> ps))"

primrec forCandidates :: "renderer \<Rightarrow> nat \<Rightarrow> candidate list \<Rightarrow> locals \<times> app \<Rightarrow> thrown option \<times> locals \<times> app" where
  "forCandidates marked_parse h [] vs = (None, vs)"
| "forCandidates marked_parse h (c # cs) vs =
    (case forParts marked_parse h (candidateParts c) vs of
       (Some e, vs') \<Rightarrow> (Some e, vs')
     | (None, vs') \<Rightarrow> forCandidates marked_parse h cs vs')"

definition chunkCandidates :: "chunk \<Rightarrow> candidate list" where
  "chunkCandidates ch = (case candidates ch of None \<Rightarrow> [] | Some cs \<Rightarrow> cs)"

primrec forChunks :: "renderer \<Rightarrow> nat \<Rightarrow> chunk list \<Rightarrow> locals \<times> app \<Rightarrow> thrown option \<times> locals \<times> app" where
  "forChunks marked_parse h [] vs = (None, vs)"
| "forChunks marked_parse h (ch # chs) vs =
    (case forCandidates marked_parse h (chunkCandidates ch) vs of
       (Some e, vs') \<Rightarrow> (Some e, vs')
     | (None, vs') \<Rightarrow> forChunks marked_parse h chs vs')"

text \<open>The body of the inner \<^verbatim>\<open>try\<close>: the loop, then the fault that ends the stream, if any.\<close>

definition tryBody :: "renderer \<Rightarrow> nat \<Rightarrow> responseStream \<Rightarrow> locals \<times> app \<Rightarrow> thrown option \<times> locals \<times> app" where
  "tryBody marked_parse h st vs =
    (case forChunks marked_parse h (chunks st) vs of
       (Some e, vs') \<Rightarrow> (Some e, vs')
     | (None, vs') \<Rightarrow> (fault st, vs'))"

definition finalErrorMessage :: "thrown \<Rightarrow> string" where
  "finalErrorMessage e =
    (case e of ErrorInstance m \<Rightarrow> m
     | OtherThrown m \<Rightarrow> ''An error occurred while processing your request.'')"

definition catchBlock :: "renderer \<Rightarrow> thrown \<Rightarrow> app \<Rightarrow> thrown option \<times> app" where
  "catchBlock marked_parse e s =
    (let (he, s1) = addMessage ''error'' [] s
     in case marked_parse (''Error: '' @ finalErrorMessage e) of
          Inl e' \<Rightarrow> (Some e', s1)
        | Inr html \<Rightarrow> (None, setTextHTML he html s1))"

definition cleanup :: "nat \<Rightarrow> locals \<Rightarrow> app \<Rightarrow> app" where
  "cleanup h v s =
    (let s1 = (if thoughtAccumulator v = [] then setThinkingHidden h True s else s);
         t = readTextHTML s1 h
     in if trim t = ''...'' \<or> length (trim t) = 0 then setTextHTML h [] s1 else s1)"

text \<open>
  \<open>aiChat\<close> is \<^verbatim>\<open>aiChat.sendMessageStream\<close>: the stream the model runtime answers the
  message with. \<open>prologue\<close> is the handler before its \<^verbatim>\<open>try\<close>: the assistant turn,
  the state \<open>GENERATING\<close> and the placeholder. \<open>tryPhase\<close> is the handler up to the end
  of the inner \<^verbatim>\<open>try\<close> block: it returns the handle of the assistant turn, the exception
  the block raised, if any, the two accumulators and the state.
\<close>

definition prologue :: "app \<Rightarrow> nat \<times> app" where
  "prologue s =
    (let (h, s1) = addMessage ''assistant'' [] s;
         s2 = setChatState GENERATING s1;
         s3 = setTextHTML h ''...'' s2
     in (h, s3))"

definition tryPhase ::
    "renderer \<Rightarrow> (string \<Rightarrow> responseStream) \<Rightarrow> string \<Rightarrow> app \<Rightarrow> nat \<times> thrown option \<times> locals \<times> app" where
  "tryPhase marked_parse aiChat input s =
    (let (h, s3) = prologue s
     in (h, tryBody marked_parse h (aiChat input)
              (\<lparr>newCode = [], thoughtAccumulator = []\<rparr>, s3)))"

text \<open>
  The exception that leaves the loop over the stream's fragments, if any. The loop calls
  nothing that can throw but \<^verbatim>\<open>marked.parse\<close>, so it is the fault of rendering a
  fragment; the fault that ends a stream comes after the loop.
\<close>

definition loopFault ::
    "renderer \<Rightarrow> (string \<Rightarrow> responseStream) \<Rightarrow> string \<Rightarrow> app \<Rightarrow> thrown option" where
  "loopFault marked_parse aiChat input s =
    (let (h, s3) = prologue s
     in fst (forChunks marked_parse h (chunks (aiChat input))
               (\<lparr>newCode = [], thoughtAccumulator = []\<rparr>, s3)))"

text \<open>
  The handler: the inner \<^verbatim>\<open>try\<close>, its \<^verbatim>\<open>catch\<close>, the clean-up (skipped when the
  \<^verbatim>\<open>catch\<close> block throws) and the \<^verbatim>\<open>finally\<close>. The result is the exception that
  leaves the handler, if any, and the state it leaves. Console output is not part of
  the state.
\<close>

definition sendMessageHandler ::
    "renderer \<Rightarrow> (string \<Rightarrow> responseStream) \<Rightarrow> string \<Rightarrow> string \<Rightarrow> app \<Rightarrow> thrown option \<times> app" where
  "sendMessageHandler marked_parse aiChat input role s =
    (let (h, ex, v, s4) = tryPhase marked_parse aiChat input s;
         (ex', s5) = (case ex of None \<Rightarrow> (None, s4) | Some e \<Rightarrow> catchBlock marked_parse e s4);
         s6 = (case ex' of None \<Rightarrow> cleanup h v s5 | Some e' \<Rightarrow> s5)
     in (ex', setChatState IDLE s6))"

text \<open>
  The fragments a stream yields, in order, and the two kinds the loop acts on: a thought
  fragment (first branch) and a display-text fragment (second branch).
\<close>

definition fragments :: "responseStream \<Rightarrow> part list" where
  "fragments st = concat (map candidateParts (concat (map chunkCandidates (chunks st))))"

definition isThought :: "part \<Rightarrow> bool" where
  "isThought p = truthy (thought p)"

definition isDisplayText :: "part \<Rightarrow> bool" where
  "isDisplayText p = (\<not> truthy (thought p) \<and> truthyStr (text_of p))"

text \<open>
  \<^verbatim>\<open>sendMessageAction\<close>; \<open>handler\<close> is the field \<^verbatim>\<open>sendMessageHandler\<close>, unset or set to
  a function of the message, the role and the state.
\<close>

definition sendMessageAction ::
    "renderer \<Rightarrow> (string \<Rightarrow> string \<Rightarrow> app \<Rightarrow> thrown option \<times> app) option \<Rightarrow> nat \<Rightarrow> app \<Rightarrow> thrown option \<times> app" where
  "sendMessageAction marked_parse handler r s =
    (if chatState s \<noteq> IDLE \<or> trim (inputMessage s) = [] then (None, s)
     else
       (let msg = trim (inputMessage s);
            s1 = s\<lparr>inputMessage := []\<rparr>;
            (h, s2) = addMessage ''user'' ''...'' s1
        in case marked_parse msg of
             Inl e \<Rightarrow> (Some e, s2)
           | Inr html \<Rightarrow>
               (let s3 = setTextHTML h html s2
                in case handler of
                     None \<Rightarrow> (None, setNewRandomPrompt r s3)
                   | Some f \<Rightarrow>
                       (case f msg ''user'' s3 of
                          (Some e, s4) \<Rightarrow> (Some e, s4)
                        | (None, s4) \<Rightarrow> (None, setNewRandomPrompt r s4)))))"

section \<open>The map (map_app)\<close>

record MapParams =
  location :: "string option"
  origin :: "string option"
  destination :: "string option"

text \<open>
  What the map services hand to the callbacks: the geocoder a list of results, of which
  the code reads \<^verbatim>\<open>geometry.location\<close>; the directions service the routes of its
  response, of which the code reads the overview path, the end points of the first leg
  and the centre of the bounds.
\<close>

record geocoderResult =
  geometry_location :: latLng

record directionsRoute =
  overview_path :: "latLng list"
  start_location :: latLng
  end_location :: latLng
  bounds_center :: latLng

text \<open>
  The constructor's field initialisers, and \<^verbatim>\<open>loadMap\<close> with \<^verbatim>\<open>initializeMap\<close>:
  \<open>loaded\<close> says whether the loader and the import of the 3D library succeed, \<open>container\<close>
  whether the map container element is found, \<open>ser\<close> is the serialisation of the
  document the application lives in. The API key of the source is neither empty nor a
  placeholder, and the 3D library provides the element classes.
\<close>

definition newMapApp :: "nat \<Rightarrow> (string \<Rightarrow> string) \<Rightarrow> app" where
  "newMapApp r ser = setNewRandomPrompt r
    \<lparr>chatState = IDLE, inputMessage = [], messages = [], mapInitialized = False,
     mapError = [], map_el = False, geocoder = False, directionsService = False,
     marker = None, routePolyline = None, originMarker = None, destinationMarker = None,
     elements = [], mapChildren = [], created = 0, flights = [],
     geocodeRequests = [], routeRequests = [], domSerialise = ser\<rparr>"

definition initializeMap :: "bool \<Rightarrow> app \<Rightarrow> app" where
  "initializeMap container s = (if \<not> container then s else s\<lparr>map_el := True, geocoder := True\<rparr>)"

definition loadMap :: "bool \<Rightarrow> bool \<Rightarrow> app \<Rightarrow> app" where
  "loadMap loaded container s =
    (if loaded
     then (initializeMap container (s\<lparr>directionsService := True\<rparr>))\<lparr>mapInitialized := True\<rparr>
     else s\<lparr>mapError := ''Could not load Google Maps.''\<rparr>)"

text \<open>\<^verbatim>\<open>el?.remove()\<close> detaches the element from the map, if it is set and attached.\<close>

definition removeEl :: "mapElement option \<Rightarrow> mapElement list \<Rightarrow> mapElement list" where
  "removeEl el cs = (case el of None \<Rightarrow> cs | Some e \<Rightarrow> removeAll e cs)"

definition clearMapElements :: "app \<Rightarrow> app" where
  "clearMapElements s =
    s\<lparr>mapChildren :=
        fold removeEl [marker s, routePolyline s, originMarker s, destinationMarker s]
          (mapChildren s),
      marker := None, routePolyline := None, originMarker := None, destinationMarker := None\<rparr>"

definition flyCameraTo :: "flight \<Rightarrow> app \<Rightarrow> app" where
  "flyCameraTo f s = s\<lparr>flights := flights s @ [f]\<rparr>"

definition appendChild :: "mapElement \<Rightarrow> app \<Rightarrow> app" where
  "appendChild e s = s\<lparr>mapChildren := mapChildren s @ [e]\<rparr>"

definition withAltitude :: "latLng \<Rightarrow> real \<Rightarrow> latLngAlt" where
  "withAltitude p a = \<lparr>lat = lat p, lng = lng p, altitude = a\<rparr>"

text \<open>
  \<^verbatim>\<open>_handleViewLocation\<close> up to the call of the geocoder, and the callback it passes,
  which runs when the geocoder answers.
\<close>

definition handleViewLocation :: "string \<Rightarrow> app \<Rightarrow> app" where
  "handleViewLocation locationQuery s =
    (if \<not> mapInitialized s \<or> \<not> geocoder s then s
     else (let s1 = clearMapElements s
           in s1\<lparr>geocodeRequests := geocodeRequests s1 @ [locationQuery]\<rparr>))"

definition viewLocationCallback ::
    "string \<Rightarrow> geocoderResult list option \<Rightarrow> string \<Rightarrow> app \<Rightarrow> app" where
  "viewLocationCallback locationQuery results status s =
    (if status = ''OK'' \<and> results \<noteq> None \<and> results \<noteq> Some [] \<and> map_el s then
       (let loc = geometry_location (hd (the results));
            s1 = flyCameraTo \<lparr>center = withAltitude loc 0, heading = 0, tilt = 67.5,
                              range_m = 2000, durationMillis = 1500\<rparr> s;
            m = Marker3DElement (created s1) (withAltitude loc 0) (take 30 locationQuery);
            s2 = s1\<lparr>created := Suc (created s1), marker := Some m\<rparr>
        in appendChild m s2)
     else s)"

text \<open>
  \<^verbatim>\<open>_handleDirections\<close> and its callback. The callback does not test \<^verbatim>\<open>this.map\<close>:
  without a map the first \<^verbatim>\<open>appendChild\<close> throws a \<^verbatim>\<open>TypeError\<close>, after the polyline
  has been stored in its field.
\<close>

definition handleDirections :: "string \<Rightarrow> string \<Rightarrow> app \<Rightarrow> app" where
  "handleDirections orig dest s =
    (if \<not> mapInitialized s \<or> \<not> directionsService s then s
     else (let s1 = clearMapElements s
           in s1\<lparr>routeRequests := routeRequests s1 @ [(orig, dest)]\<rparr>))"

definition directionsCallback ::
    "directionsRoute list option \<Rightarrow> string \<Rightarrow> app \<Rightarrow> thrown option \<times> app" where
  "directionsCallback routes status s =
    (if status = ''OK'' \<and> routes \<noteq> None \<and> routes \<noteq> Some [] then
       (let route = hd (the routes);
            path = map (\<lambda>p. withAltitude p 5) (overview_path route);
            pl = Polyline3DElement (created s) path ''#4285F4'' 8;
            s1 = s\<lparr>created := Suc (created s), routePolyline := Some pl\<rparr>
        in if \<not> map_el s1
           then (Some (ErrorInstance ''Cannot read properties of undefined''), s1)
           else
             (let s2 = appendChild pl s1;
                  a = Marker3DElement (created s2) (withAltitude (start_location route) 0) ''A'';
                  s3 = appendChild a (s2\<lparr>created := Suc (created s2), originMarker := Some a\<rparr>);
                  b = Marker3DElement (created s3) (withAltitude (end_location route) 0) ''B'';
                  s4 = appendChild b (s3\<lparr>created := Suc (created s3), destinationMarker := Some b\<rparr>)
              in (None,
                  flyCameraTo \<lparr>center = withAltitude (bounds_center route) 0, heading = 0,
                               tilt = 45, range_m = 10000, durationMillis = 2000\<rparr> s4)))
     else (None, s))"

definition handleMapQuery :: "MapParams \<Rightarrow> app \<Rightarrow> app" where
  "handleMapQuery params s =
    (if truthyStr (location params) then handleViewLocation (the (location params)) s
     else if truthyStr (origin params) \<and> truthyStr (destination params)
       then handleDirections (the (origin params)) (the (destination params)) s
     else s)"

text \<open>
  The event loop around the map: a map query arrives, or one of the pending lookups is
  answered and its callback runs (an exception thrown by a callback ends that callback
  only). An answer to a lookup that is not pending is not a run of the program.
\<close>

datatype event =
  MapQuery MapParams
| GeocodeReply nat "geocoderResult list option" string
| RouteReply nat "directionsRoute list option" string

definition dropNth :: "nat \<Rightarrow> 'a list \<Rightarrow> 'a list" where
  "dropNth i xs = take i xs @ drop (Suc i) xs"

fun step :: "event \<Rightarrow> app \<Rightarrow> app option" where
  "step (MapQuery params) s = Some (handleMapQuery params s)"
| "step (GeocodeReply i results status) s =
    (if i < length (geocodeRequests s)
     then Some (viewLocationCallback (geocodeRequests s ! i) results status
                  (s\<lparr>geocodeRequests := dropNth i (geocodeRequests s)\<rparr>))
     else None)"
| "step (RouteReply i routes status) s =
    (if i < length (routeRequests s)
     then Some (snd (directionsCallback routes status
                  (s\<lparr>routeRequests := dropNth i (routeRequests s)\<rparr>)))
     else None)"

fun run :: "event list \<Rightarrow> app \<Rightarrow> app option" where
  "run [] s = Some s"
| "run (e # es) s = (case step e s of None \<Rightarrow> None | Some s' \<Rightarrow> run es s')"

definition isMarker :: "mapElement \<Rightarrow> bool" where
  "isMarker e = (case e of Marker3DElement i p l \<Rightarrow> True | Polyline3DElement i c k w \<Rightarrow> False)"

text \<open>Every element on the map is held by one of the four fields.\<close>

definition tracked :: "app \<Rightarrow> bool" where
  "tracked s =
    (\<forall>e\<in>set (mapChildren s).
       Some e \<in> {marker s, routePolyline s, originMarker s, destinationMarker s})"

section \<open>The tool dispatcher (mcp_maps_server)\<close>

text \<open>
  Modelled from the spec: the module \<^verbatim>\<open>mcp_maps_server\<close> (the tool registry and the
  dispatcher started by \<^verbatim>\<open>startMcpGoogleMapServer\<close>) is not among the sources. The
  registry holds the two tools of the spec with their required string parameters.
\<close>

record ToolDefinition =
  tool_name :: string
  required :: "string list"

definition registry :: "ToolDefinition list" where
  "registry =
    [\<lparr>tool_name = ''view_location_google_maps'', required = [''query'']\<rparr>,
     \<lparr>tool_name = ''directions_on_google_maps'', required = [''origin'', ''destination'']\<rparr>]"

text \<open>
  Modelled from the spec: the request and the result of a tool call (call id, tool name
  and arguments; echoed call id, success flag and payload or error message).
\<close>

record ToolCallRequest =
  call_id :: nat
  request_tool :: string
  arguments :: "string \<Rightarrow> string option"

record ToolCallResult =
  result_id :: nat
  success :: bool
  payload :: string

text \<open>
  Modelled from the spec: the map intent a tool forwards, \<^verbatim>\<open>{location: query}\<close> for the
  location tool and \<^verbatim>\<open>{origin, destination}\<close> for the directions tool.
\<close>

definition toolParams :: "string \<Rightarrow> (string \<Rightarrow> string option) \<Rightarrow> MapParams" where
  "toolParams name args =
    (if name = ''view_location_google_maps''
     then \<lparr>location = args ''query'', origin = None, destination = None\<rparr>
     else \<lparr>location = None, origin = args ''origin'', destination = args ''destination''\<rparr>)"

text \<open>
  Modelled from the spec: \<^verbatim>\<open>handle\<close> of the dispatcher. An unknown tool and a missing
  required argument give a failure result and no notification; a valid request gives a
  success result and one notification. The second component lists the notifications
  sent to the map-query callback.
\<close>

definition handle :: "ToolCallRequest \<Rightarrow> ToolCallResult \<times> MapParams list" where
  "handle req =
    (case find (\<lambda>t. tool_name t = request_tool req) registry of
       None \<Rightarrow> (\<lparr>result_id = call_id req, success = False, payload = ''unknown tool''\<rparr>, [])
     | Some t \<Rightarrow>
         (case find (\<lambda>a. arguments req a = None) (required t) of
            Some a \<Rightarrow>
              (\<lparr>result_id = call_id req, success = False,
                payload = ''missing argument: '' @ a\<rparr>, [])
          | None \<Rightarrow>
              (\<lparr>result_id = call_id req, success = True, payload = ''ok''\<rparr>,
               [toolParams (request_tool req) (arguments req)])))"

text \<open>
  The wiring of index.tsx: the callback given to \<^verbatim>\<open>startMcpGoogleMapServer\<close> passes
  each notification to \<^verbatim>\<open>mapApp.handleMapQuery\<close>.
\<close>

definition onMapQuery :: "MapParams \<Rightarrow> app \<Rightarrow> app" where
  "onMapQuery params s = handleMapQuery params s"

definition dispatch :: "ToolCallRequest \<Rightarrow> app \<Rightarrow> ToolCallResult \<times> app" where
  "dispatch req s = (fst (handle req), fold onMapQuery (snd (handle req)) s)"

section \<open>Example inputs\<close>

text \<open>
  A renderer that returns its input, one that always throws, three fragments (a thought,
  a display text, a tool call notice), a stream of one chunk holding the given fragments
  and ending with the given fault, a runtime that answers every message with the given
  stream, and the application after a successful \<^verbatim>\<open>loadMap\<close>.
\<close>

definition plainParse :: renderer where
  "plainParse x = Inr x"

definition failingParse :: renderer where
  "failingParse x = Inl (ErrorInstance ''render failed'')"

definition thoughtPart :: part where
  "thoughtPart = \<lparr>functionCall = None, thought = JBool True, text_of = Some ''Locating the tower''\<rparr>"

definition textPart :: part where
  "textPart = \<lparr>functionCall = None, thought = JUndefined, text_of = Some ''Here is Pisa.''\<rparr>"

definition callPart :: part where
  "callPart = \<lparr>functionCall = Some ''view_location_google_maps'', thought = JUndefined,
               text_of = None\<rparr>"

definition streamOf :: "part list \<Rightarrow> thrown option \<Rightarrow> responseStream" where
  "streamOf ps f =
    \<lparr>chunks = [\<lparr>candidates = Some [\<lparr>content_of = Some \<lparr>parts = Some ps\<rparr>\<rparr>]\<rparr>], fault = f\<rparr>"

definition answering :: "responseStream \<Rightarrow> string \<Rightarrow> responseStream" where
  "answering st input = st"

definition loadedApp :: app where
  "loadedApp = loadMap True True (newMapApp 2 id)"

text \<open>
  Map queries, two answers of the geocoder, and three runs of the event loop: a location
  is shown; after it a second location is asked for and not found; two locations are
  asked for before the geocoder answers the first.
\<close>

definition viewQuery :: "string \<Rightarrow> MapParams" where
  "viewQuery q = \<lparr>location = Some q, origin = None, destination = None\<rparr>"

definition routeQuery :: "string \<Rightarrow> string \<Rightarrow> MapParams" where
  "routeQuery a b = \<lparr>location = None, origin = Some a, destination = Some b\<rparr>"

definition paris :: geocoderResult where
  "paris = \<lparr>geometry_location = \<lparr>lat = 48, lng = 2\<rparr>\<rparr>"

definition rome :: geocoderResult where
  "rome = \<lparr>geometry_location = \<lparr>lat = 41, lng = 12\<rparr>\<rparr>"

definition shownParis :: "event list" where
  "shownParis = [MapQuery (viewQuery ''Paris''), GeocodeReply 0 (Some [paris]) ''OK'']"

definition thenAtlantis :: "event list" where
  "thenAtlantis =
    shownParis @ [MapQuery (viewQuery ''Atlantis''), GeocodeReply 0 None ''ZERO_RESULTS'']"

definition overlappingLookups :: "event list" where
  "overlappingLookups =
    [MapQuery (viewQuery ''Paris''), MapQuery (viewQuery ''Rome''),
     GeocodeReply 0 (Some [paris]) ''OK'', GeocodeReply 0 (Some [rome]) ''OK'']"

definition viewRequest :: ToolCallRequest where
  "viewRequest = \<lparr>call_id = 7, request_tool = ''view_location_google_maps'',
                   arguments = [''query'' \<mapsto> ''San Francisco'']\<rparr>"

section \<open>Facts about the send operation\<close>

lemma trim_placeholder: "trim ''...'' = ''...''"
  by (simp add: trim_def isWhiteSpace_def)

lemma trim_empty: "trim [] = []"
  by (simp add: trim_def)

lemma trim_roles:
  "trim ''assistant'' = ''assistant''" "trim ''error'' = ''error''" "trim ''user'' = ''user''"
  by (simp_all add: trim_def isWhiteSpace_def)

lemma forParts_append:
  "forParts mp h (ps @ qs) vs =
    (case forParts mp h ps vs of (Some e, vs') \<Rightarrow> (Some e, vs') | (None, vs') \<Rightarrow> forParts mp h qs vs')"
  by (induction ps arbitrary: vs) (auto split: prod.splits option.splits)

lemma forCandidates_flat:
  "forCandidates mp h cs vs = forParts mp h (concat (map candidateParts cs)) vs"
  by (induction cs arbitrary: vs) (auto simp: forParts_append split: prod.splits option.splits)

lemma forChunks_flat:
  "forChunks mp h chs vs =
     forParts mp h (concat (map candidateParts (concat (map chunkCandidates chs)))) vs"
  by (induction chs arbitrary: vs)
     (auto simp: forParts_append forCandidates_flat split: prod.splits option.splits)

lemma tryBody_flat:
  "tryBody mp h st vs =
    (case forParts mp h (fragments st) vs of
       (Some e, vs') \<Rightarrow> (Some e, vs')
     | (None, vs') \<Rightarrow> (fault st, vs'))"
  by (simp add: tryBody_def forChunks_flat fragments_def)

lemma forParts_preserves:
  assumes step: "\<And>p v s ex v' s'. P v s \<Longrightarrow> p \<in> set ps \<Longrightarrow> partBody mp h p (v, s) = (ex, v', s') \<Longrightarrow> P v' s'"
    and init: "P v s"
    and res: "forParts mp h ps (v, s) = (ex, v', s')"
  shows "P v' s'"
  using assms
proof (induction ps arbitrary: v s)
  case Nil
  then show ?case by simp
next
  case (Cons p ps)
  obtain ex1 v1 s1 where b: "partBody mp h p (v, s) = (ex1, v1, s1)"
    by (cases "partBody mp h p (v, s)") auto
  have P1: "P v1 s1" using Cons.prems(1)[OF Cons.prems(2) _ b] by simp
  show ?case
  proof (cases ex1)
    case None
    with b Cons.prems(3) have r: "forParts mp h ps (v1, s1) = (ex, v', s')" by simp
    have st: "P v' s'" if "P v s" "q \<in> set ps" "partBody mp h q (v, s) = (ex, v', s')"
      for q v s ex v' s'
      by (rule Cons.prems(1)[OF that(1) _ that(3)]) (simp add: that(2))
    show ?thesis by (rule Cons.IH[OF st P1 r])
  next
    case (Some e)
    with b Cons.prems(3) have "v' = v1" "s' = s1" by simp_all
    with P1 show ?thesis by simp
  qed
qed

lemma partBody_frame:
  assumes "partBody mp h p (v, s) = (ex, v', s')"
  shows "messages s' = messages s"
    and "length (elements s') = length (elements s)"
    and "i \<noteq> h \<Longrightarrow> elements s' ! i = elements s ! i"
  using assms
  by (auto simp: partBody_def Let_def setChatState_def setTextHTML_def setThinkingHTML_def
      setThinkingHidden_def nth_list_update split: sum.splits if_splits)

lemma partBody_classes:
  assumes "partBody mp h p (v, s) = (ex, v', s')" "h < length (elements s)"
  shows "classes (elements s' ! h) = classes (elements s ! h)"
  using assms
  by (auto simp: partBody_def Let_def setChatState_def setTextHTML_def setThinkingHTML_def
      setThinkingHidden_def nth_list_update split: sum.splits if_splits)

lemma partBody_no_thought:
  assumes "partBody mp h p (v, s) = (ex, v', s')" "\<not> isThought p" "h < length (elements s)"
  shows "thinkingHidden (elements s' ! h) = thinkingHidden (elements s ! h)"
    and "thoughtAccumulator v' = thoughtAccumulator v"
  using assms
  by (auto simp: partBody_def Let_def setChatState_def setTextHTML_def isThought_def
      nth_list_update split: sum.splits if_splits)

lemma partBody_no_text:
  assumes "partBody mp h p (v, s) = (ex, v', s')" "\<not> isDisplayText p" "h < length (elements s)"
  shows "textHTML (elements s' ! h) = textHTML (elements s ! h)"
  using assms
  by (auto simp: partBody_def Let_def setChatState_def setThinkingHTML_def setThinkingHidden_def
      isDisplayText_def nth_list_update split: sum.splits if_splits)

lemma partBody_total:
  assumes "partBody mp h p (v, s) = (ex, v', s')" "\<forall>x e. mp x \<noteq> Inl e"
  shows "ex = None"
  using assms
  by (auto simp: partBody_def Let_def split: sum.splits if_splits)

lemma partBody_visible:
  assumes "partBody mp h p (v, s) = (None, v', s')" "h < length (elements s)"
    and "isThought p \<or> \<not> thinkingHidden (elements s ! h)"
  shows "\<not> thinkingHidden (elements s' ! h)"
  using assms
  by (auto simp: partBody_def Let_def setChatState_def setTextHTML_def setThinkingHTML_def
      setThinkingHidden_def isThought_def nth_list_update split: sum.splits if_splits)

lemma forParts_frame:
  assumes "forParts mp h ps (v, s) = (ex, v', s')"
  shows "messages s' = messages s"
    and "length (elements s') = length (elements s)"
    and "i \<noteq> h \<Longrightarrow> elements s' ! i = elements s ! i"
proof -
  let ?P = "\<lambda>(w::locals) t. messages t = messages s \<and> length (elements t) = length (elements s)
              \<and> (\<forall>i. i \<noteq> h \<longrightarrow> elements t ! i = elements s ! i)"
  have "?P v' s'"
    by (rule forParts_preserves[where P = ?P, OF _ _ assms]) (auto dest: partBody_frame)
  then show "messages s' = messages s" "length (elements s') = length (elements s)"
    "i \<noteq> h \<Longrightarrow> elements s' ! i = elements s ! i" by auto
qed

lemma forParts_classes:
  assumes "forParts mp h ps (v, s) = (ex, v', s')" "h < length (elements s)"
  shows "classes (elements s' ! h) = classes (elements s ! h)"
proof -
  let ?P = "\<lambda>(w::locals) t. length (elements t) = length (elements s)
              \<and> classes (elements t ! h) = classes (elements s ! h)"
  have "?P v' s'"
    by (rule forParts_preserves[where P = ?P, OF _ _ assms(1)])
       (use assms(2) in \<open>auto dest: partBody_frame(2) partBody_classes\<close>)
  then show ?thesis by simp
qed

lemma forParts_no_thought:
  assumes "forParts mp h ps (v, s) = (ex, v', s')" "\<forall>p\<in>set ps. \<not> isThought p"
    "h < length (elements s)"
  shows "thinkingHidden (elements s' ! h) = thinkingHidden (elements s ! h)"
    and "thoughtAccumulator v' = thoughtAccumulator v"
proof -
  let ?P = "\<lambda>w t. length (elements t) = length (elements s)
              \<and> thinkingHidden (elements t ! h) = thinkingHidden (elements s ! h)
              \<and> thoughtAccumulator w = thoughtAccumulator v"
  have "?P v' s'"
    by (rule forParts_preserves[where P = ?P, OF _ _ assms(1)])
       (use assms(2,3) in \<open>auto dest: partBody_frame(2) partBody_no_thought\<close>)
  then show "thinkingHidden (elements s' ! h) = thinkingHidden (elements s ! h)"
    "thoughtAccumulator v' = thoughtAccumulator v" by simp_all
qed

lemma forParts_no_text:
  assumes "forParts mp h ps (v, s) = (ex, v', s')" "\<forall>p\<in>set ps. \<not> isDisplayText p"
    "h < length (elements s)"
  shows "textHTML (elements s' ! h) = textHTML (elements s ! h)"
proof -
  let ?P = "\<lambda>(w::locals) t. length (elements t) = length (elements s)
              \<and> textHTML (elements t ! h) = textHTML (elements s ! h)"
  have "?P v' s'"
    by (rule forParts_preserves[where P = ?P, OF _ _ assms(1)])
       (use assms(2,3) in \<open>auto dest: partBody_frame(2) partBody_no_text\<close>)
  then show ?thesis by simp
qed

lemma forParts_total:
  assumes "\<forall>x e. mp x \<noteq> Inl e"
  shows "fst (forParts mp h ps (v, s)) = None"
proof (induction ps arbitrary: v s)
  case Nil
  show ?case by simp
next
  case (Cons p ps)
  obtain ex1 v1 s1 where b: "partBody mp h p (v, s) = (ex1, v1, s1)"
    by (cases "partBody mp h p (v, s)") auto
  from partBody_total[OF b assms] have "ex1 = None" .
  with b Cons.IH show ?case by simp
qed

lemma forParts_visible:
  assumes "\<forall>x e. mp x \<noteq> Inl e" "h < length (elements s)"
    and "(\<exists>p\<in>set ps. isThought p) \<or> \<not> thinkingHidden (elements s ! h)"
  shows "\<not> thinkingHidden (elements (snd (snd (forParts mp h ps (v, s)))) ! h)"
  using assms(2,3)
proof (induction ps arbitrary: v s)
  case Nil
  then show ?case by simp
next
  case (Cons p ps)
  obtain ex1 v1 s1 where b: "partBody mp h p (v, s) = (ex1, v1, s1)"
    by (cases "partBody mp h p (v, s)") auto
  from partBody_total[OF b assms(1)] have n: "ex1 = None" .
  have len: "h < length (elements s1)" using partBody_frame(2)[OF b] Cons.prems(1) by simp
  have "(\<exists>p\<in>set ps. isThought p) \<or> \<not> thinkingHidden (elements s1 ! h)"
  proof (cases "isThought p \<or> \<not> thinkingHidden (elements s ! h)")
    case True
    from partBody_visible[OF b[unfolded n] Cons.prems(1) True] show ?thesis by simp
  next
    case False
    with Cons.prems(2) show ?thesis by auto
  qed
  from Cons.IH[OF len this, of v1] b n show ?case by simp
qed

lemma prologue_eq:
  "prologue s =
    (length (elements s),
     s\<lparr>chatState := GENERATING,
       messages := messages s @ [length (elements s)],
       elements := elements s @
         [\<lparr>classes = [''turn'', ''role-assistant''], thinkingHidden = True,
           thinkingHTML = [], textHTML = ''...''\<rparr>]\<rparr>)"
  by (simp add: prologue_def addMessage_def setChatState_def setTextHTML_def Let_def trim_roles)

lemma cleanup_frame:
  "messages (cleanup h v s) = messages s"
  "chatState (cleanup h v s) = chatState s"
  "length (elements (cleanup h v s)) = length (elements s)"
  "i \<noteq> h \<Longrightarrow> elements (cleanup h v s) ! i = elements s ! i"
  by (simp_all add: cleanup_def readTextHTML_def plainText_def Let_def setTextHTML_def setThinkingHidden_def)

lemma cleanup_hidden:
  "h < length (elements s) \<Longrightarrow>
    thinkingHidden (elements (cleanup h v s) ! h) =
      (thoughtAccumulator v = [] \<or> thinkingHidden (elements s ! h))"
  by (auto simp add: cleanup_def readTextHTML_def plainText_def Let_def setTextHTML_def setThinkingHidden_def)

lemma cleanup_placeholder:
  "h < length (elements s) \<Longrightarrow> textHTML (elements s ! h) = ''...'' \<Longrightarrow>
    textHTML (elements (cleanup h v s) ! h) = []"
  by (simp add: cleanup_def readTextHTML_def plainText_def Let_def setTextHTML_def setThinkingHidden_def trim_placeholder)

lemma catchBlock_frame:
  assumes "catchBlock mp e s = (ex', s')"
  shows "messages s' = messages s @ [length (elements s)]"
    and "length (elements s') = Suc (length (elements s))"
    and "i < length (elements s) \<Longrightarrow> elements s' ! i = elements s ! i"
    and "classes (elements s' ! length (elements s)) = [''turn'', ''role-error'']"
    and "chatState s' = chatState s"
  using assms
  by (auto simp: catchBlock_def addMessage_def setTextHTML_def Let_def trim_roles nth_append
      split: sum.splits)

lemma catchBlock_rendered:
  assumes "mp (''Error: '' @ finalErrorMessage e) = Inr html"
  shows "fst (catchBlock mp e s) = None"
    and "textHTML (elements (snd (catchBlock mp e s)) ! length (elements s)) = html"
  using assms
  by (auto simp: catchBlock_def addMessage_def setTextHTML_def Let_def)

lemma catchBlock_throws:
  assumes "mp (''Error: '' @ finalErrorMessage e) = Inl e'"
  shows "fst (catchBlock mp e s) = Some e'"
    and "textHTML (elements (snd (catchBlock mp e s)) ! length (elements s)) = []"
  using assms
  by (auto simp: catchBlock_def addMessage_def setTextHTML_def Let_def)

text \<open>The state at the end of the inner try block.\<close>

lemma tryPhase_frame:
  assumes "tryPhase mp ai input s = (h, ex, v, s4)"
  shows "h = length (elements s)"
    and "messages s4 = messages s @ [h]"
    and "length (elements s4) = Suc (length (elements s))"
    and "i < length (elements s) \<Longrightarrow> elements s4 ! i = elements s ! i"
    and "classes (elements s4 ! h) = [''turn'', ''role-assistant'']"
proof -
  let ?s3 = "snd (prologue s)"
  let ?h = "length (elements s)"
  obtain ex0 v0 s0 where f: "forParts mp ?h (fragments (ai input))
      (\<lparr>newCode = [], thoughtAccumulator = []\<rparr>, ?s3) = (ex0, v0, s0)"
    by (metis prod_cases3)
  from assms have h: "h = ?h" and s4: "s4 = s0"
    using f by (auto simp: tryPhase_def prologue_eq tryBody_flat split: option.splits)
  show "h = length (elements s)" by (rule h)
  show "messages s4 = messages s @ [h]"
    using forParts_frame(1)[OF f] by (simp add: s4 h prologue_eq)
  show "length (elements s4) = Suc (length (elements s))"
    using forParts_frame(2)[OF f] by (simp add: s4 prologue_eq)
  show "elements s4 ! i = elements s ! i" if "i < length (elements s)"
    using forParts_frame(3)[OF f, of i] that by (simp add: s4 prologue_eq nth_append)
  show "classes (elements s4 ! h) = [''turn'', ''role-assistant'']"
    using forParts_classes[OF f] by (simp add: s4 h prologue_eq)
qed

lemma partBody_visible_acc:
  assumes "partBody mp h p (v, s) = (ex, v', s')" "h < length (elements s)"
    and "\<not> thinkingHidden (elements s ! h) \<longrightarrow> thoughtAccumulator v \<noteq> []"
  shows "\<not> thinkingHidden (elements s' ! h) \<longrightarrow> thoughtAccumulator v' \<noteq> []"
  using assms
  by (auto simp: partBody_def Let_def setChatState_def setTextHTML_def setThinkingHTML_def
      setThinkingHidden_def nth_list_update split: sum.splits if_splits)

lemma forParts_visible_acc:
  assumes "forParts mp h ps (v, s) = (ex, v', s')" "h < length (elements s)"
    and "\<not> thinkingHidden (elements s ! h) \<longrightarrow> thoughtAccumulator v \<noteq> []"
  shows "\<not> thinkingHidden (elements s' ! h) \<longrightarrow> thoughtAccumulator v' \<noteq> []"
proof -
  let ?P = "\<lambda>w t. length (elements t) = length (elements s)
              \<and> (\<not> thinkingHidden (elements t ! h) \<longrightarrow> thoughtAccumulator w \<noteq> [])"
  have "?P v' s'"
    by (rule forParts_preserves[where P = ?P, OF _ _ assms(1)])
       (use assms(2,3) in \<open>auto dest: partBody_frame(2) partBody_visible_acc\<close>)
  then show ?thesis by simp
qed

text \<open>The loop of the handler, started by the prologue.\<close>

lemma tryPhase_loop:
  obtains ex0 v0 s0 where
    "forParts mp (length (elements s)) (fragments (ai input))
       (\<lparr>newCode = [], thoughtAccumulator = []\<rparr>, snd (prologue s)) = (ex0, v0, s0)"
    "tryPhase mp ai input s =
       (length (elements s), (case ex0 of None \<Rightarrow> fault (ai input) | Some e \<Rightarrow> Some e), v0, s0)"
proof -
  obtain ex0 v0 s0 where f: "forParts mp (length (elements s)) (fragments (ai input))
      (\<lparr>newCode = [], thoughtAccumulator = []\<rparr>, snd (prologue s)) = (ex0, v0, s0)"
    by (metis prod_cases3)
  then have "tryPhase mp ai input s =
       (length (elements s), (case ex0 of None \<Rightarrow> fault (ai input) | Some e \<Rightarrow> Some e), v0, s0)"
    by (auto simp: tryPhase_def prologue_eq tryBody_flat split: option.splits)
  with f show ?thesis by (rule that)
qed

lemma prologue_turn:
  "length (elements s) < length (elements (snd (prologue s)))"
  "thinkingHidden (elements (snd (prologue s)) ! length (elements s))"
  "textHTML (elements (snd (prologue s)) ! length (elements s)) = ''...''"
  by (simp_all add: prologue_eq)

lemma tryPhase_hidden_acc:
  assumes "tryPhase mp ai input s = (h, ex, v, s4)"
  shows "\<not> thinkingHidden (elements s4 ! h) \<longrightarrow> thoughtAccumulator v \<noteq> []"
proof -
  obtain ex0 v0 s0 where f: "forParts mp (length (elements s)) (fragments (ai input))
       (\<lparr>newCode = [], thoughtAccumulator = []\<rparr>, snd (prologue s)) = (ex0, v0, s0)"
    and t: "tryPhase mp ai input s =
       (length (elements s), (case ex0 of None \<Rightarrow> fault (ai input) | Some e \<Rightarrow> Some e), v0, s0)"
    by (rule tryPhase_loop)
  from forParts_visible_acc[OF f prologue_turn(1)] prologue_turn(2)
  have "\<not> thinkingHidden (elements s0 ! length (elements s)) \<longrightarrow> thoughtAccumulator v0 \<noteq> []"
    by simp
  with t assms show ?thesis by simp
qed

lemma tryPhase_no_thought:
  assumes "tryPhase mp ai input s = (h, ex, v, s4)" "\<forall>p\<in>set (fragments (ai input)). \<not> isThought p"
  shows "thinkingHidden (elements s4 ! h)"
proof -
  obtain ex0 v0 s0 where f: "forParts mp (length (elements s)) (fragments (ai input))
       (\<lparr>newCode = [], thoughtAccumulator = []\<rparr>, snd (prologue s)) = (ex0, v0, s0)"
    and t: "tryPhase mp ai input s =
       (length (elements s), (case ex0 of None \<Rightarrow> fault (ai input) | Some e \<Rightarrow> Some e), v0, s0)"
    by (rule tryPhase_loop)
  from forParts_no_thought(1)[OF f assms(2) prologue_turn(1)] prologue_turn(2)
  have "thinkingHidden (elements s0 ! length (elements s))" by simp
  with t assms(1) show ?thesis by simp
qed

lemma tryPhase_no_text:
  assumes "tryPhase mp ai input s = (h, ex, v, s4)"
    "\<forall>p\<in>set (fragments (ai input)). \<not> isDisplayText p"
  shows "textHTML (elements s4 ! h) = ''...''"
proof -
  obtain ex0 v0 s0 where f: "forParts mp (length (elements s)) (fragments (ai input))
       (\<lparr>newCode = [], thoughtAccumulator = []\<rparr>, snd (prologue s)) = (ex0, v0, s0)"
    and t: "tryPhase mp ai input s =
       (length (elements s), (case ex0 of None \<Rightarrow> fault (ai input) | Some e \<Rightarrow> Some e), v0, s0)"
    by (rule tryPhase_loop)
  from forParts_no_text[OF f assms(2) prologue_turn(1)] prologue_turn(3)
  have "textHTML (elements s0 ! length (elements s)) = ''...''" by simp
  with t assms(1) show ?thesis by simp
qed

lemma tryPhase_thought_visible:
  assumes "tryPhase mp ai input s = (h, ex, v, s4)" "\<forall>x e. mp x \<noteq> Inl e"
    "\<exists>p\<in>set (fragments (ai input)). isThought p"
  shows "\<not> thinkingHidden (elements s4 ! h)"
proof -
  obtain ex0 v0 s0 where f: "forParts mp (length (elements s)) (fragments (ai input))
       (\<lparr>newCode = [], thoughtAccumulator = []\<rparr>, snd (prologue s)) = (ex0, v0, s0)"
    and t: "tryPhase mp ai input s =
       (length (elements s), (case ex0 of None \<Rightarrow> fault (ai input) | Some e \<Rightarrow> Some e), v0, s0)"
    by (rule tryPhase_loop)
  from forParts_visible[OF assms(2) prologue_turn(1)[of s], where ps = "fragments (ai input)"
      and v = "\<lparr>newCode = [], thoughtAccumulator = []\<rparr>"] assms(3) f
  have "\<not> thinkingHidden (elements s0 ! length (elements s))" by simp
  with t assms(1) show ?thesis by simp
qed

text \<open>The send operation leaves the document's serialisation as it is.\<close>

lemma partBody_serialise:
  assumes "partBody mp h p (v, s) = (ex, v', s')"
  shows "domSerialise s' = domSerialise s"
  using assms
  by (auto simp: partBody_def Let_def setChatState_def setTextHTML_def setThinkingHTML_def
      setThinkingHidden_def split: sum.splits if_splits)

lemma forParts_serialise:
  assumes "forParts mp h ps (v, s) = (ex, v', s')"
  shows "domSerialise s' = domSerialise s"
proof -
  let ?P = "\<lambda>(w::locals) t. domSerialise t = domSerialise s"
  have "?P v' s'"
    by (rule forParts_preserves[where P = ?P, OF _ _ assms]) (auto dest: partBody_serialise)
  then show ?thesis .
qed

lemma tryPhase_serialise:
  assumes "tryPhase mp ai input s = (h, ex, v, s4)"
  shows "domSerialise s4 = domSerialise s"
proof -
  obtain ex0 v0 s0 where f: "forParts mp (length (elements s)) (fragments (ai input))
       (\<lparr>newCode = [], thoughtAccumulator = []\<rparr>, snd (prologue s)) = (ex0, v0, s0)"
    and t: "tryPhase mp ai input s =
       (length (elements s), (case ex0 of None \<Rightarrow> fault (ai input) | Some e \<Rightarrow> Some e), v0, s0)"
    by (rule tryPhase_loop)
  from forParts_serialise[OF f] have "domSerialise s0 = domSerialise s" by (simp add: prologue_eq)
  with t assms show ?thesis by simp
qed

lemma catchBlock_serialise: "domSerialise (snd (catchBlock mp e s)) = domSerialise s"
  by (auto simp: catchBlock_def addMessage_def setTextHTML_def Let_def split: sum.splits)

lemma cleanup_serialise: "domSerialise (cleanup h v s) = domSerialise s"
  by (simp add: cleanup_def Let_def setTextHTML_def setThinkingHidden_def)

lemma sendMessageHandler_serialise:
  "domSerialise (snd (sendMessageHandler mp ai input role s)) = domSerialise s"
proof -
  obtain h ex v s4 where t: "tryPhase mp ai input s = (h, ex, v, s4)" by (metis prod_cases4)
  note d = tryPhase_serialise[OF t]
  show ?thesis
  proof (cases ex)
    case None
    with t d show ?thesis
      by (simp add: sendMessageHandler_def setChatState_def cleanup_serialise)
  next
    case (Some e)
    obtain ex' s5 where c: "catchBlock mp e s4 = (ex', s5)" by (cases "catchBlock mp e s4") auto
    from catchBlock_serialise[of mp e s4] c have "domSerialise s5 = domSerialise s4" by simp
    with Some t d c show ?thesis
      by (cases ex') (simp_all add: sendMessageHandler_def setChatState_def cleanup_serialise)
  qed
qed

text \<open>Runs in which no rendering of a fragment throws.\<close>

lemma loopFault_eq:
  "loopFault mp ai input s =
     fst (forParts mp (length (elements s)) (fragments (ai input))
            (\<lparr>newCode = [], thoughtAccumulator = []\<rparr>, snd (prologue s)))"
  by (simp add: loopFault_def prologue_eq forChunks_flat fragments_def)

lemma loopFault_total:
  assumes "\<forall>x e. mp x \<noteq> Inl e"
  shows "loopFault mp ai input s = None"
  unfolding loopFault_eq by (rule forParts_total[OF assms])

lemma forParts_visible_run:
  assumes "fst (forParts mp h ps (v, s)) = None" "h < length (elements s)"
    and "(\<exists>p\<in>set ps. isThought p) \<or> \<not> thinkingHidden (elements s ! h)"
  shows "\<not> thinkingHidden (elements (snd (snd (forParts mp h ps (v, s)))) ! h)"
  using assms
proof (induction ps arbitrary: v s)
  case Nil
  then show ?case by simp
next
  case (Cons p ps)
  obtain ex1 v1 s1 where b: "partBody mp h p (v, s) = (ex1, v1, s1)"
    by (cases "partBody mp h p (v, s)") auto
  have n: "ex1 = None"
  proof (cases ex1)
    case (Some e)
    with b Cons.prems(1) show ?thesis by simp
  qed simp
  from b n Cons.prems(1) have r: "fst (forParts mp h ps (v1, s1)) = None" by simp
  have len: "h < length (elements s1)" using partBody_frame(2)[OF b] Cons.prems(2) by simp
  have "(\<exists>p\<in>set ps. isThought p) \<or> \<not> thinkingHidden (elements s1 ! h)"
  proof (cases "isThought p \<or> \<not> thinkingHidden (elements s ! h)")
    case True
    from partBody_visible[OF b[unfolded n] Cons.prems(2) True] show ?thesis by simp
  next
    case False
    with Cons.prems(3) show ?thesis by auto
  qed
  from Cons.IH[OF r len this] b n show ?case by simp
qed

lemma tryPhase_thought_visible_run:
  assumes "tryPhase mp ai input s = (h, ex, v, s4)" "loopFault mp ai input s = None"
    "\<exists>p\<in>set (fragments (ai input)). isThought p"
  shows "\<not> thinkingHidden (elements s4 ! h)"
proof -
  obtain ex0 v0 s0 where f: "forParts mp (length (elements s)) (fragments (ai input))
       (\<lparr>newCode = [], thoughtAccumulator = []\<rparr>, snd (prologue s)) = (ex0, v0, s0)"
    and t: "tryPhase mp ai input s =
       (length (elements s), (case ex0 of None \<Rightarrow> fault (ai input) | Some e \<Rightarrow> Some e), v0, s0)"
    by (rule tryPhase_loop)
  have n: "fst (forParts mp (length (elements s)) (fragments (ai input))
       (\<lparr>newCode = [], thoughtAccumulator = []\<rparr>, snd (prologue s))) = None"
    using assms(2) by (simp add: loopFault_eq)
  from forParts_visible_run[OF n prologue_turn(1)[of s]] assms(3) f
  have "\<not> thinkingHidden (elements s0 ! length (elements s))" by simp
  with t assms(1) show ?thesis by simp
qed

text \<open>The handler after the inner try block, by the outcome of that block.\<close>

lemma handler_completed:
  assumes "tryPhase mp ai input s = (h, None, v, s4)"
  shows "sendMessageHandler mp ai input role s = (None, setChatState IDLE (cleanup h v s4))"
  using assms by (simp add: sendMessageHandler_def)

lemma handler_caught:
  assumes "tryPhase mp ai input s = (h, Some e, v, s4)"
  shows "sendMessageHandler mp ai input role s =
    (case catchBlock mp e s4 of
       (None, s5) \<Rightarrow> (None, setChatState IDLE (cleanup h v s5))
     | (Some e', s5) \<Rightarrow> (Some e', setChatState IDLE s5))"
  using assms by (simp add: sendMessageHandler_def split: prod.splits option.splits)

lemma setChatState_frame:
  "messages (setChatState c s) = messages s"
  "elements (setChatState c s) = elements s"
  "chatState (setChatState c s) = c"
  by (simp_all add: setChatState_def)

lemma handler_final_hidden:
  assumes "tryPhase mp ai input s = (h, ex, v, s4)"
  shows "thinkingHidden (elements (snd (sendMessageHandler mp ai input role s)) ! h) =
         thinkingHidden (elements s4 ! h)"
proof -
  note fr = tryPhase_frame[OF assms]
  have hl: "h < length (elements s4)" using fr(1,3) by simp
  note inv = tryPhase_hidden_acc[OF assms]
  show ?thesis
  proof (cases ex)
    case None
    with assms handler_completed[of mp ai input s h v s4 role] inv hl show ?thesis
      by (auto simp: setChatState_frame cleanup_hidden)
  next
    case (Some e)
    obtain ex' s5 where c: "catchBlock mp e s4 = (ex', s5)" by (cases "catchBlock mp e s4") auto
    note cf = catchBlock_frame[OF c]
    have same: "elements s5 ! h = elements s4 ! h" using cf(3)[of h] hl by simp
    have hl5: "h < length (elements s5)" using cf(2) hl by simp
    from Some assms handler_caught[of mp ai input s h e v s4 role] c same hl5 inv show ?thesis
      by (cases ex') (auto simp: setChatState_frame cleanup_hidden)
  qed
qed

lemma handler_messages:
  assumes "tryPhase mp ai input s = (h, ex, v, s4)"
  shows "messages (snd (sendMessageHandler mp ai input role s)) =
         messages s @ (case ex of None \<Rightarrow> [h] | Some e \<Rightarrow> [h, Suc h])"
proof -
  note fr = tryPhase_frame[OF assms]
  show ?thesis
  proof (cases ex)
    case None
    with assms handler_completed[of mp ai input s h v s4 role] fr(2) show ?thesis
      by (simp add: setChatState_frame cleanup_frame)
  next
    case (Some e)
    obtain ex' s5 where c: "catchBlock mp e s4 = (ex', s5)" by (cases "catchBlock mp e s4") auto
    note cf = catchBlock_frame[OF c]
    from Some assms handler_caught[of mp ai input s h e v s4 role] c cf(1) fr(1,2,3) show ?thesis
      by (cases ex') (auto simp: setChatState_frame cleanup_frame)
  qed
qed

lemma cleanup_classes:
  "h < length (elements s) \<Longrightarrow> classes (elements (cleanup h v s) ! h) = classes (elements s ! h)"
  by (simp add: cleanup_def readTextHTML_def plainText_def Let_def setTextHTML_def setThinkingHidden_def)

lemma setNewRandomPrompt_messages: "messages (setNewRandomPrompt r s) = messages s"
  by (simp add: setNewRandomPrompt_def)

lemma sendMessageAction_messages:
  assumes "\<And>m t. prefix (messages t) (messages (snd (f m ''user'' t)))"
  shows "prefix (messages s) (messages (snd (sendMessageAction mp (Some f) r s)))"
proof (cases "chatState s \<noteq> IDLE \<or> trim (inputMessage s) = []")
  case True
  then show ?thesis by (auto simp: sendMessageAction_def)
next
  case False
  let ?msg = "trim (inputMessage s)"
  obtain h s2 where a: "addMessage ''user'' ''...'' (s\<lparr>inputMessage := []\<rparr>) = (h, s2)"
    by (cases "addMessage ''user'' ''...'' (s\<lparr>inputMessage := []\<rparr>)") auto
  then have m2: "messages s2 = messages s @ [h]" by (auto simp: addMessage_def Let_def)
  show ?thesis
  proof (cases "mp ?msg")
    case (Inl e)
    with False a m2 show ?thesis by (simp add: sendMessageAction_def)
  next
    case (Inr html)
    let ?s3 = "setTextHTML h html s2"
    obtain ex s4 where c: "f ?msg ''user'' ?s3 = (ex, s4)" by (cases "f ?msg ''user'' ?s3") auto
    have "prefix (messages ?s3) (messages s4)" using assms[of ?s3 ?msg] c by simp
    then have p: "prefix (messages s) (messages s4)"
      using m2 by (auto simp: setTextHTML_def prefix_def)
    from False a Inr c p show ?thesis
      by (cases ex) (simp_all add: sendMessageAction_def setNewRandomPrompt_messages)
  qed
qed

lemma sendMessageAction_messages_unset:
  "prefix (messages s) (messages (snd (sendMessageAction mp None r s)))"
  by (auto simp: sendMessageAction_def Let_def addMessage_def setTextHTML_def
      setNewRandomPrompt_messages split: sum.splits prod.splits)

lemma sendMessageHandler_prefix:
  "prefix (messages s) (messages (snd (sendMessageHandler mp ai input role s)))"
proof -
  obtain h ex v s4 where t: "tryPhase mp ai input s = (h, ex, v, s4)" by (metis prod_cases4)
  show ?thesis using handler_messages[OF t, of role] by simp
qed

text \<open>
  With a renderer that does not throw, the inner \<^verbatim>\<open>try\<close> block ends as the stream
  does: without a fault when the stream ends, with the stream's fault otherwise.
\<close>

lemma tryPhase_completes:
  assumes "fault (aiChat input) = None" "\<forall>x e. marked_parse x \<noteq> Inl e"
  shows "fst (snd (tryPhase marked_parse aiChat input s)) = None"
proof -
  obtain ex0 v0 s0 where f: "forParts marked_parse (length (elements s)) (fragments (aiChat input))
       (\<lparr>newCode = [], thoughtAccumulator = []\<rparr>, snd (prologue s)) = (ex0, v0, s0)"
    and t: "tryPhase marked_parse aiChat input s =
       (length (elements s), (case ex0 of None \<Rightarrow> fault (aiChat input) | Some e \<Rightarrow> Some e), v0, s0)"
    by (rule tryPhase_loop)
  from forParts_total[OF assms(2), of "length (elements s)" "fragments (aiChat input)"
      "\<lparr>newCode = [], thoughtAccumulator = []\<rparr>" "snd (prologue s)"] f
  have "ex0 = None" by simp
  with t assms(1) show ?thesis by simp
qed

lemma tryPhase_stream_fault:
  assumes "fault (aiChat input) = Some e" "\<forall>x e. marked_parse x \<noteq> Inl e"
  shows "fst (snd (tryPhase marked_parse aiChat input s)) = Some e"
proof -
  obtain ex0 v0 s0 where f: "forParts marked_parse (length (elements s)) (fragments (aiChat input))
       (\<lparr>newCode = [], thoughtAccumulator = []\<rparr>, snd (prologue s)) = (ex0, v0, s0)"
    and t: "tryPhase marked_parse aiChat input s =
       (length (elements s), (case ex0 of None \<Rightarrow> fault (aiChat input) | Some e \<Rightarrow> Some e), v0, s0)"
    by (rule tryPhase_loop)
  from forParts_total[OF assms(2), of "length (elements s)" "fragments (aiChat input)"
      "\<lparr>newCode = [], thoughtAccumulator = []\<rparr>" "snd (prologue s)"] f
  have "ex0 = None" by simp
  with t assms(1) show ?thesis by simp
qed

section \<open>Facts about the map elements\<close>

lemma removeEl_subset: "set (removeEl el cs) \<subseteq> set cs"
  by (auto simp: removeEl_def split: option.splits)

lemma removeEl_absent: "e \<notin> set cs \<Longrightarrow> e \<notin> set (removeEl el cs)"
  using removeEl_subset by fastforce

lemma removeEl_removed: "e \<notin> set (removeEl (Some e) cs)"
  by (simp add: removeEl_def)

text \<open>
  \<^verbatim>\<open>_clearMapElements\<close> resets the four fields, detaches every element a field held
  and adds nothing.
\<close>

lemma clearMapElements_fields:
  "marker (clearMapElements s) = None" "routePolyline (clearMapElements s) = None"
  "originMarker (clearMapElements s) = None" "destinationMarker (clearMapElements s) = None"
  by (simp_all add: clearMapElements_def)

lemma clearMapElements_subset: "set (mapChildren (clearMapElements s)) \<subseteq> set (mapChildren s)"
proof -
  have "set (removeEl d (removeEl c (removeEl b (removeEl a cs)))) \<subseteq> set cs" for a b c d cs
    using removeEl_subset by (meson subset_trans)
  then show ?thesis by (simp add: clearMapElements_def)
qed

lemma clearMapElements_removes:
  assumes "Some e \<in> {marker s, routePolyline s, originMarker s, destinationMarker s}"
  shows "e \<notin> set (mapChildren (clearMapElements s))"
proof -
  have "e \<notin> set (removeEl d (removeEl c (removeEl b (removeEl a cs))))"
    if "Some e \<in> {a, b, c, d}" for a b c d cs
    using that removeEl_removed[of e] removeEl_absent[of e] by (elim insertE) auto
  then show ?thesis using assms by (simp add: clearMapElements_def)
qed


text \<open>
  When every element on the map is held by a field, clearing empties the map; and an
  action whose callback runs before the next action starts leaves at most one location
  marker, or at most one route with its two end markers, all held by fields.
\<close>

lemma clearMapElements_tracked:
  assumes "tracked s"
  shows "mapChildren (clearMapElements s) = []"
proof -
  have "e \<notin> set (mapChildren (clearMapElements s))" for e
  proof
    assume a: "e \<in> set (mapChildren (clearMapElements s))"
    then have "e \<in> set (mapChildren s)" using clearMapElements_subset by blast
    with assms have "Some e \<in> {marker s, routePolyline s, originMarker s, destinationMarker s}"
      by (simp add: tracked_def)
    from clearMapElements_removes[OF this] a show False by simp
  qed
  then show ?thesis by (cases "mapChildren (clearMapElements s)") auto
qed

lemma view_location_sequential:
  assumes "mapInitialized s" "geocoder s" "tracked s"
  shows "tracked (viewLocationCallback q results status (handleViewLocation q s))
       \<and> length (mapChildren (viewLocationCallback q results status (handleViewLocation q s))) \<le> 1
       \<and> list_all isMarker (mapChildren (viewLocationCallback q results status (handleViewLocation q s)))"
  using assms clearMapElements_tracked[OF assms(3)]
  by (simp add: viewLocationCallback_def handleViewLocation_def Let_def flyCameraTo_def
      appendChild_def tracked_def clearMapElements_fields isMarker_def)

lemma directions_sequential:
  assumes "mapInitialized s" "directionsService s" "tracked s"
  shows "tracked (snd (directionsCallback routes status (handleDirections a b s)))
       \<and> length (filter isMarker
            (mapChildren (snd (directionsCallback routes status (handleDirections a b s))))) \<le> 2
       \<and> length (filter (\<lambda>e. \<not> isMarker e)
            (mapChildren (snd (directionsCallback routes status (handleDirections a b s))))) \<le> 1"
  using assms clearMapElements_tracked[OF assms(3)]
  by (simp add: directionsCallback_def handleDirections_def Let_def flyCameraTo_def
      appendChild_def tracked_def clearMapElements_fields isMarker_def)

section \<open>Unfolding rules for concrete runs\<close>

lemmas example_defs = plainParse_def failingParse_def thoughtPart_def textPart_def callPart_def
  streamOf_def answering_def loadedApp_def loadMap_def initializeMap_def newMapApp_def
  setNewRandomPrompt_def EXAMPLE_PROMPTS_def

lemmas handler_defs = sendMessageHandler_def tryPhase_def prologue_def tryBody_def
  chunkCandidates_def candidateParts_def partBody_def catchBlock_def cleanup_def
  readTextHTML_def plainText_def
  finalErrorMessage_def addMessage_def setChatState_def setTextHTML_def setThinkingHTML_def
  setThinkingHidden_def trim_def isWhiteSpace_def fragments_def isThought_def isDisplayText_def
  Let_def

lemmas map_defs = handleMapQuery_def handleViewLocation_def handleDirections_def
  viewLocationCallback_def directionsCallback_def clearMapElements_def removeEl_def
  flyCameraTo_def appendChild_def withAltitude_def dropNth_def Let_def

lemmas map_example_defs = viewQuery_def routeQuery_def paris_def rome_def shownParis_def
  thenAtlantis_def overlappingLookups_def viewRequest_def

section \<open>The claims\<close>

subsection \<open>C1: the chat state is idle when the send operation ends\<close>

text \<open>
  Claim C1. Whatever the renderer does (return or throw), whatever stream the runtime
  answers with (empty, complete, or ended by a fault) and whatever the state before, the
  state that \<^verbatim>\<open>sendMessageHandler\<close> leaves has \<^verbatim>\<open>chatState = ChatState.IDLE\<close>, whether
  the handler returns or an exception leaves it.
\<close>

theorem sendMessageHandler_idle:
  "chatState (snd (sendMessageHandler marked_parse aiChat input role s)) = IDLE"
  by (simp add: sendMessageHandler_def setChatState_def split: prod.splits)

text \<open>
  C1 at a run where rendering the only fragment throws and rendering the error text
  throws again, so that an exception leaves the handler.
\<close>

theorem sendMessageHandler_idle_witness:
  "fst (sendMessageHandler failingParse (answering (streamOf [thoughtPart] None))
         ''hi'' ''user'' loadedApp) = Some (ErrorInstance ''render failed'')
   \<and> chatState (snd (sendMessageHandler failingParse (answering (streamOf [thoughtPart] None))
         ''hi'' ''user'' loadedApp)) = IDLE"
proof -
  have "fst (sendMessageHandler failingParse (answering (streamOf [thoughtPart] None))
         ''hi'' ''user'' loadedApp) = Some (ErrorInstance ''render failed'')"
    by (simp add: example_defs handler_defs)
  then show ?thesis
    using sendMessageHandler_idle[of failingParse "answering (streamOf [thoughtPart] None)"
        "''hi''" "''user''" loadedApp]
    by simp
qed

subsection \<open>C2: a valid tool call succeeds and notifies the map once\<close>

text \<open>
  Claim C2. For a request that names a registered tool and carries all its required
  arguments, \<open>handle\<close> returns a result with \<open>success = True\<close> that echoes the call id,
  and sends exactly one notification, whose parameters are the request's arguments
  (\<^verbatim>\<open>query\<close> as \<^verbatim>\<open>location\<close>, or \<^verbatim>\<open>origin\<close> and \<^verbatim>\<open>destination\<close>); through the wiring of
  index.tsx that notification is one call of \<^verbatim>\<open>handleMapQuery\<close>.
\<close>

theorem handle_valid_request:
  assumes "t \<in> set registry" "request_tool req = tool_name t"
    and "\<forall>a\<in>set (required t). arguments req a \<noteq> None"
  shows "success (fst (handle req)) \<and> result_id (fst (handle req)) = call_id req
       \<and> snd (handle req) = [toolParams (request_tool req) (arguments req)]
       \<and> dispatch req s
           = (fst (handle req), handleMapQuery (toolParams (request_tool req) (arguments req)) s)
       \<and> (request_tool req = ''view_location_google_maps''
            \<longrightarrow> toolParams (request_tool req) (arguments req)
                 = \<lparr>location = arguments req ''query'', origin = None, destination = None\<rparr>)
       \<and> (request_tool req = ''directions_on_google_maps''
            \<longrightarrow> toolParams (request_tool req) (arguments req)
                 = \<lparr>location = None, origin = arguments req ''origin'',
                    destination = arguments req ''destination''\<rparr>)"
  using assms
  by (auto simp: registry_def handle_def dispatch_def onMapQuery_def toolParams_def)

text \<open>C2 at the request \<^verbatim>\<open>view_location_google_maps(query = "San Francisco")\<close>.\<close>

theorem handle_valid_request_witness:
  "success (fst (handle viewRequest))
   \<and> snd (handle viewRequest) = [viewQuery ''San Francisco'']
   \<and> snd (dispatch viewRequest loadedApp) = handleMapQuery (viewQuery ''San Francisco'') loadedApp"
proof -
  have t: "\<lparr>tool_name = ''view_location_google_maps'', required = [''query'']\<rparr> \<in> set registry"
    by (simp add: registry_def)
  have n: "request_tool viewRequest
      = tool_name \<lparr>tool_name = ''view_location_google_maps'', required = [''query'']\<rparr>"
    by (simp add: viewRequest_def)
  have a: "\<forall>a\<in>set (required \<lparr>tool_name = ''view_location_google_maps'', required = [''query'']\<rparr>).
      arguments viewRequest a \<noteq> None"
    by (simp add: viewRequest_def)
  show ?thesis
    using handle_valid_request[OF t n a, of loadedApp]
    by (simp add: viewRequest_def viewQuery_def)
qed

subsection \<open>C3: when the thinking pane is visible\<close>

text \<open>
  The pane of the assistant turn is never visible without a thought fragment, whatever
  the renderer does.
\<close>

lemma thinking_pane_only_if:
  assumes "\<not> thinkingHidden (elements (snd (sendMessageHandler marked_parse aiChat input role s))
        ! length (elements s))"
  shows "\<exists>p\<in>set (fragments (aiChat input)). isThought p"
proof -
  obtain h ex v s4 where t: "tryPhase marked_parse aiChat input s = (h, ex, v, s4)"
    by (metis prod_cases4)
  have h: "h = length (elements s)" by (rule tryPhase_frame(1)[OF t])
  from handler_final_hidden[OF t, of role] assms have "\<not> thinkingHidden (elements s4 ! h)"
    unfolding h by simp
  then show ?thesis using tryPhase_no_thought[OF t] by blast
qed

text \<open>
  Claim C3. For every fragment sequence (empty, all thoughts or mixed, ended by the end
  of the stream or by a fault of the stream), in a send operation in which no rendering
  of a fragment throws, as is the case for \<^verbatim>\<open>marked.parse\<close> on the strings the loop
  passes to it: at the end of the operation the thinking pane of the assistant turn
  (the turn the operation creates, with handle \<open>length (elements s)\<close>) is visible if and
  only if the stream yielded at least one thought fragment.
\<close>

theorem thinking_pane_visible:
  assumes "loopFault marked_parse aiChat input s = None"
  shows "\<not> thinkingHidden (elements (snd (sendMessageHandler marked_parse aiChat input role s))
              ! length (elements s))
         \<longleftrightarrow> (\<exists>p\<in>set (fragments (aiChat input)). isThought p)"
proof -
  obtain h ex v s4 where t: "tryPhase marked_parse aiChat input s = (h, ex, v, s4)"
    by (metis prod_cases4)
  have h: "h = length (elements s)" by (rule tryPhase_frame(1)[OF t])
  have fin: "thinkingHidden (elements (snd (sendMessageHandler marked_parse aiChat input role s)) ! h)
      = thinkingHidden (elements s4 ! h)"
    by (rule handler_final_hidden[OF t])
  have only_if: "\<exists>p\<in>set (fragments (aiChat input)). isThought p"
    if "\<not> thinkingHidden (elements s4 ! h)"
    using tryPhase_no_thought[OF t] that by blast
  have "if": "\<not> thinkingHidden (elements s4 ! h)"
    if "\<exists>p\<in>set (fragments (aiChat input)). isThought p"
    by (rule tryPhase_thought_visible_run[OF t assms that])
  show ?thesis using fin only_if "if" unfolding h by blast
qed

text \<open>
  C3 at three runs: a thought and a text leave the pane visible; a thought followed by
  a fault of the stream leaves it visible; a tool call notice and a text leave it
  hidden.
\<close>

theorem thinking_pane_visible_witness:
  "\<not> thinkingHidden (elements (snd (sendMessageHandler plainParse
       (answering (streamOf [thoughtPart, textPart] None)) ''hi'' ''user'' loadedApp)) ! 0)
   \<and> \<not> thinkingHidden (elements (snd (sendMessageHandler plainParse
       (answering (streamOf [thoughtPart] (Some (ErrorInstance ''boom''))))
       ''hi'' ''user'' loadedApp)) ! 0)
   \<and> thinkingHidden (elements (snd (sendMessageHandler plainParse
       (answering (streamOf [callPart, textPart] None)) ''hi'' ''user'' loadedApp)) ! 0)"
proof -
  have a: "loopFault plainParse (answering (streamOf [thoughtPart, textPart] None)) ''hi'' loadedApp
      = None"
    and b: "loopFault plainParse (answering (streamOf [thoughtPart] (Some (ErrorInstance ''boom''))))
      ''hi'' loadedApp = None"
    and c: "loopFault plainParse (answering (streamOf [callPart, textPart] None)) ''hi'' loadedApp
      = None"
    by (rule loopFault_total, simp add: plainParse_def)+
  show ?thesis
    using thinking_pane_visible[OF a, of "''user''"] thinking_pane_visible[OF b, of "''user''"]
      thinking_pane_visible[OF c, of "''user''"]
    by (simp add: example_defs fragments_def chunkCandidates_def candidateParts_def isThought_def)
qed

subsection \<open>C4: a fault while consuming the stream becomes an error turn\<close>

text \<open>
  Claim C4 as stated fails for a fault that is not an \<^verbatim>\<open>Error\<close>: the stream fails with the
  thrown object \<^verbatim>\<open>{message: "boom"}\<close>; the text assigned to the error turn (handle 1) is
  the rendering of \<^verbatim>\<open>"Error: "\<close> followed by the default text, not by the fault's message.
\<close>

theorem stream_fault_counterexample:
  "fault (answering (streamOf [] (Some (OtherThrown (Some ''boom'')))) ''hi'')
     = Some (OtherThrown (Some ''boom''))
   \<and> textHTML (elements (snd (sendMessageHandler plainParse
          (answering (streamOf [] (Some (OtherThrown (Some ''boom''))))) ''hi'' ''user'' loadedApp)) ! 1)
     = ''Error: An error occurred while processing your request.''
   \<and> textHTML (elements (snd (sendMessageHandler plainParse
          (answering (streamOf [] (Some (OtherThrown (Some ''boom''))))) ''hi'' ''user'' loadedApp)) ! 1)
     \<noteq> ''Error: boom''"
  by (simp add: example_defs handler_defs)

text \<open>
  Claim C4, amended. When the inner \<^verbatim>\<open>try\<close> block raises a fault \<open>e\<close> (the stream's, as
  in \<open>tryPhase_stream_fault\<close>, or the fault of rendering a fragment), the transcript
  gains the assistant turn (handle \<open>length (elements s)\<close>) and after it exactly one turn
  of role \<^verbatim>\<open>error\<close> (the next handle), and the state ends idle, so the next send is
  admitted. With \<open>html\<close> the markup \<^verbatim>\<open>marked.parse\<close> returns for \<^verbatim>\<open>"Error: "\<close> followed by
  the fault's message if the fault is an \<^verbatim>\<open>Error\<close>, and by the default text
  \<^verbatim>\<open>"An error occurred while processing your request."\<close> if it is any other value: no
  exception leaves the handler, \<open>html\<close> is what the error turn's text element was
  assigned, and the element reads back \<open>html\<close> when it is plain text and the document's
  serialisation of it otherwise.
\<close>

theorem stream_fault_error_turn:
  assumes "fst (snd (tryPhase marked_parse aiChat input s)) = Some e"
  shows "messages (snd (sendMessageHandler marked_parse aiChat input role s))
           = messages s @ [length (elements s), Suc (length (elements s))]
       \<and> classes (elements (snd (sendMessageHandler marked_parse aiChat input role s))
           ! length (elements s)) = [''turn'', ''role-assistant'']
       \<and> classes (elements (snd (sendMessageHandler marked_parse aiChat input role s))
           ! Suc (length (elements s))) = [''turn'', ''role-error'']
       \<and> chatState (snd (sendMessageHandler marked_parse aiChat input role s)) = IDLE
       \<and> (\<forall>html. marked_parse (''Error: '' @
              (case e of ErrorInstance m \<Rightarrow> m
               | OtherThrown m \<Rightarrow> ''An error occurred while processing your request.'')) = Inr html
            \<longrightarrow> fst (sendMessageHandler marked_parse aiChat input role s) = None
              \<and> textHTML (elements (snd (sendMessageHandler marked_parse aiChat input role s))
                  ! Suc (length (elements s))) = html
              \<and> readTextHTML (snd (sendMessageHandler marked_parse aiChat input role s))
                  (Suc (length (elements s)))
                  = (if plainText html then html else domSerialise s html))"
proof -
  obtain h ex v s4 where t0: "tryPhase marked_parse aiChat input s = (h, ex, v, s4)"
    by (metis prod_cases4)
  with assms have t: "tryPhase marked_parse aiChat input s = (h, Some e, v, s4)" by simp
  note fr = tryPhase_frame[OF t]
  have len4: "length (elements s4) = Suc h" using fr(1,3) by simp
  obtain ex' s5 where c: "catchBlock marked_parse e s4 = (ex', s5)"
    by (cases "catchBlock marked_parse e s4") auto
  note cf = catchBlock_frame[OF c]
  let ?r = "sendMessageHandler marked_parse aiChat input role s"
  have r: "?r = (case ex' of None \<Rightarrow> (None, setChatState IDLE (cleanup h v s5))
                 | Some e' \<Rightarrow> (Some e', setChatState IDLE s5))"
    using handler_caught[OF t, of role] c by (simp split: option.splits)
  have el5: "elements s5 ! h = elements s4 ! h" using cf(3)[of h] len4 by simp
  have len5: "length (elements s5) = Suc (Suc h)" using cf(2) len4 by simp
  have m: "messages (snd ?r) = messages s @ [h, Suc h]"
    using handler_messages[OF t, of role] by simp
  have ca: "classes (elements (snd ?r) ! h) = [''turn'', ''role-assistant'']"
    using r fr(5) el5 len5 by (cases ex') (simp_all add: setChatState_frame cleanup_classes)
  have ce: "classes (elements (snd ?r) ! Suc h) = [''turn'', ''role-error'']"
    using r cf(4) len4 by (cases ex') (simp_all add: setChatState_frame cleanup_frame)
  have idle: "chatState (snd ?r) = IDLE"
    using r by (cases ex') (simp_all add: setChatState_frame)
  have rendered0: "fst ?r = None \<and> textHTML (elements (snd ?r) ! Suc h) = html"
    if "marked_parse (''Error: '' @ finalErrorMessage e) = Inr html" for html
    using r c catchBlock_rendered[where mp = marked_parse and e = e and s = s4, OF that] len4
    by (cases ex') (simp_all add: setChatState_frame cleanup_frame)
  have rendered: "fst ?r = None \<and> textHTML (elements (snd ?r) ! Suc h) = html
      \<and> readTextHTML (snd ?r) (Suc h) = (if plainText html then html else domSerialise s html)"
    if "marked_parse (''Error: '' @ finalErrorMessage e) = Inr html" for html
    using rendered0[OF that] sendMessageHandler_serialise[of marked_parse aiChat input role s]
    by (simp add: readTextHTML_def)
  show ?thesis using m ca ce idle rendered
    unfolding fr(1)[symmetric] finalErrorMessage_def by blast
qed

text \<open>
  The amended C4 at a stream that yields a text fragment and then fails with
  \<^verbatim>\<open>Error("boom")\<close>, with a renderer that returns its input: the error turn is assigned
  and reads back \<^verbatim>\<open>Error: boom\<close>.
\<close>

theorem stream_fault_error_turn_witness:
  "fst (sendMessageHandler plainParse (answering (streamOf [textPart] (Some (ErrorInstance ''boom''))))
         ''hi'' ''user'' loadedApp) = None
   \<and> textHTML (elements (snd (sendMessageHandler plainParse
         (answering (streamOf [textPart] (Some (ErrorInstance ''boom'')))) ''hi'' ''user'' loadedApp))
         ! 1) = ''Error: boom''
   \<and> readTextHTML (snd (sendMessageHandler plainParse
         (answering (streamOf [textPart] (Some (ErrorInstance ''boom'')))) ''hi'' ''user'' loadedApp))
         1 = ''Error: boom''
   \<and> messages (snd (sendMessageHandler plainParse
         (answering (streamOf [textPart] (Some (ErrorInstance ''boom'')))) ''hi'' ''user'' loadedApp))
       = [0, 1]"
proof -
  have f: "fst (snd (tryPhase plainParse
      (answering (streamOf [textPart] (Some (ErrorInstance ''boom'')))) ''hi'' loadedApp))
      = Some (ErrorInstance ''boom'')"
    by (simp add: example_defs handler_defs)
  have l: "elements loadedApp = []" "messages loadedApp = []" by (simp_all add: example_defs)
  show ?thesis
    using stream_fault_error_turn[OF f, of "''user''"]
    by (simp add: l plainParse_def plainText_def)
qed

subsection \<open>C5: no send starts while the chat is not idle\<close>

text \<open>
  Claim C5. When \<^verbatim>\<open>sendMessageAction\<close> is invoked with \<^verbatim>\<open>chatState\<close> other than
  \<^verbatim>\<open>ChatState.IDLE\<close> it returns at once: the state is the one it was given (no turn is
  appended, the input is not cleared), whatever the handler is, so the handler is not
  called.
\<close>

theorem send_refused_unless_idle:
  assumes "chatState s \<noteq> IDLE"
  shows "sendMessageAction marked_parse handler r s = (None, s)"
  using assms by (simp add: sendMessageAction_def)

text \<open>
  C5 in the state \<open>GENERATING\<close>, with the handler of index.tsx, which changes the state
  whenever it is called (as the same action does from the idle state).
\<close>

theorem send_refused_unless_idle_witness:
  "sendMessageAction plainParse
     (Some (sendMessageHandler plainParse (answering (streamOf [textPart] None)))) 0
     (setChatState GENERATING loadedApp)
   = (None, setChatState GENERATING loadedApp)
   \<and> snd (sendMessageAction plainParse
     (Some (sendMessageHandler plainParse (answering (streamOf [textPart] None)))) 0 loadedApp)
       \<noteq> loadedApp"
proof -
  have g: "chatState (setChatState GENERATING loadedApp) \<noteq> IDLE"
    by (simp add: setChatState_def)
  have "messages (snd (sendMessageAction plainParse
     (Some (sendMessageHandler plainParse (answering (streamOf [textPart] None)))) 0 loadedApp))
     = [0, 1]"
    by (simp add: sendMessageAction_def example_defs handler_defs)
  moreover have "messages loadedApp = []" by (simp add: example_defs)
  ultimately show ?thesis
    using send_refused_unless_idle[OF g] by auto
qed

subsection \<open>C6: the transcript is append-only\<close>

text \<open>
  Claim C6. \<^verbatim>\<open>addMessage\<close> puts exactly one new turn at the end of \<^verbatim>\<open>messages\<close>. Every
  other operation keeps the list it found as a prefix of the list it leaves (the send
  operation and the send action, which call \<^verbatim>\<open>addMessage\<close>) or leaves the list as it is
  (the state setter, the prompt, the map operations and their callbacks): no entry is
  removed, reordered or replaced.
\<close>

theorem transcript_append_only:
  "messages (snd (addMessage role message s)) = messages s @ [fst (addMessage role message s)]
   \<and> prefix (messages s) (messages (snd (sendMessageHandler marked_parse aiChat input role s)))
   \<and> prefix (messages s)
        (messages (snd (sendMessageAction marked_parse
                          (Some (sendMessageHandler marked_parse aiChat)) r s)))
   \<and> prefix (messages s) (messages (snd (sendMessageAction marked_parse None r s)))
   \<and> messages (setChatState st s) = messages s
   \<and> messages (setNewRandomPrompt r s) = messages s
   \<and> messages (loadMap loaded container s) = messages s
   \<and> messages (handleMapQuery params s) = messages s
   \<and> messages (viewLocationCallback q results status s) = messages s
   \<and> messages (snd (directionsCallback routes status s)) = messages s"
proof -
  have "messages (snd (addMessage role message s)) = messages s @ [fst (addMessage role message s)]"
    by (simp add: addMessage_def Let_def)
  moreover have "messages (loadMap loaded container s) = messages s"
    by (simp add: loadMap_def initializeMap_def)
  moreover have "messages (handleMapQuery params s) = messages s"
    by (simp add: handleMapQuery_def handleViewLocation_def handleDirections_def
        clearMapElements_def Let_def)
  moreover have "messages (viewLocationCallback q results status s) = messages s"
    by (simp add: viewLocationCallback_def flyCameraTo_def appendChild_def Let_def)
  moreover have "messages (snd (directionsCallback routes status s)) = messages s"
    by (simp add: directionsCallback_def flyCameraTo_def appendChild_def Let_def)
  ultimately show ?thesis
    using sendMessageHandler_prefix sendMessageAction_messages[OF sendMessageHandler_prefix]
      sendMessageAction_messages_unset
    by (simp add: setChatState_frame setNewRandomPrompt_messages)
qed

text \<open>
  C6 at a send action whose stream fails: the user turn, the assistant turn and the
  error turn are appended, in this order, after the turn that was there.
\<close>

theorem transcript_append_only_witness:
  "messages (snd (addMessage ''user'' ''hello'' loadedApp)) = [0]
   \<and> messages (snd (sendMessageAction plainParse
        (Some (sendMessageHandler plainParse
                 (answering (streamOf [textPart] (Some (ErrorInstance ''boom''))))))
        0 (snd (addMessage ''user'' ''hello'' loadedApp)))) = [0, 1, 2, 3]
   \<and> prefix (messages (snd (addMessage ''user'' ''hello'' loadedApp)))
        (messages (snd (sendMessageAction plainParse
          (Some (sendMessageHandler plainParse
                   (answering (streamOf [textPart] (Some (ErrorInstance ''boom''))))))
          0 (snd (addMessage ''user'' ''hello'' loadedApp)))))"
proof -
  have a: "messages (snd (addMessage ''user'' ''hello'' loadedApp)) = [0]"
    by (simp add: example_defs addMessage_def Let_def)
  have b: "messages (snd (sendMessageAction plainParse
        (Some (sendMessageHandler plainParse
                 (answering (streamOf [textPart] (Some (ErrorInstance ''boom''))))))
        0 (snd (addMessage ''user'' ''hello'' loadedApp)))) = [0, 1, 2, 3]"
    by (simp add: sendMessageAction_def example_defs handler_defs)
  show ?thesis
    using a b transcript_append_only[of "''user''" "''hello''"
        "snd (addMessage ''user'' ''hello'' loadedApp)" plainParse
        "answering (streamOf [textPart] (Some (ErrorInstance ''boom'')))"]
    by simp
qed

subsection \<open>C7: a lookup that finds nothing\<close>




subsection \<open>C8: the clean-up after the stream\<close>

text \<open>
  Claim C8. When the loop has consumed the whole stream (the inner \<^verbatim>\<open>try\<close> block ends
  without a fault, as it does by \<open>tryPhase_completes\<close> when the stream ends and the
  renderer does not throw): if the thought accumulator is empty, and so in particular if the
  stream yielded no thought fragment, the thinking pane of the assistant turn is hidden;
  and if the stream yielded no display-text fragment, the text of the assistant turn,
  which held the placeholder \<^verbatim>\<open>...\<close>, is the empty string.
\<close>

theorem cleanup_after_stream:
  assumes "fst (snd (tryPhase marked_parse aiChat input s)) = None"
  shows "(thoughtAccumulator (fst (snd (snd (tryPhase marked_parse aiChat input s)))) = []
            \<longrightarrow> thinkingHidden (elements (snd (sendMessageHandler marked_parse aiChat input role s))
                  ! length (elements s)))
       \<and> ((\<forall>p\<in>set (fragments (aiChat input)). \<not> isThought p)
            \<longrightarrow> thinkingHidden (elements (snd (sendMessageHandler marked_parse aiChat input role s))
                  ! length (elements s)))
       \<and> ((\<forall>p\<in>set (fragments (aiChat input)). \<not> isDisplayText p)
            \<longrightarrow> textHTML (elements (snd (sendMessageHandler marked_parse aiChat input role s))
                  ! length (elements s)) = [])"
proof -
  obtain h ex v s4 where t0: "tryPhase marked_parse aiChat input s = (h, ex, v, s4)"
    by (metis prod_cases4)
  with assms have t: "tryPhase marked_parse aiChat input s = (h, None, v, s4)" by simp
  note fr = tryPhase_frame[OF t]
  have hl: "h < length (elements s4)" using fr(1,3) by simp
  let ?r = "sendMessageHandler marked_parse aiChat input role s"
  have fin: "thinkingHidden (elements (snd ?r) ! h) = thinkingHidden (elements s4 ! h)"
    by (rule handler_final_hidden[OF t])
  have r: "?r = (None, setChatState IDLE (cleanup h v s4))" by (rule handler_completed[OF t])
  have a: "thinkingHidden (elements (snd ?r) ! h)" if "thoughtAccumulator v = []"
    using r that hl by (simp add: setChatState_frame cleanup_hidden)
  have b: "thinkingHidden (elements (snd ?r) ! h)"
    if "\<forall>p\<in>set (fragments (aiChat input)). \<not> isThought p"
    using fin tryPhase_no_thought[OF t that] by simp
  have c: "textHTML (elements (snd ?r) ! h) = []"
    if "\<forall>p\<in>set (fragments (aiChat input)). \<not> isDisplayText p"
    using r tryPhase_no_text[OF t that] hl by (simp add: setChatState_frame cleanup_placeholder)
  show ?thesis using a b c t unfolding fr(1)[symmetric] by simp
qed

text \<open>
  C8 at a stream whose only fragment is a tool call notice: the pane is hidden and the
  placeholder is cleared.
\<close>

theorem cleanup_after_stream_witness:
  "thinkingHidden (elements (snd (sendMessageHandler plainParse
      (answering (streamOf [callPart] None)) ''hi'' ''user'' loadedApp)) ! 0)
   \<and> textHTML (elements (snd (sendMessageHandler plainParse
      (answering (streamOf [callPart] None)) ''hi'' ''user'' loadedApp)) ! 0) = []"
proof -
  have f: "fst (snd (tryPhase plainParse (answering (streamOf [callPart] None)) ''hi'' loadedApp))
      = None"
    by (simp add: example_defs handler_defs)
  have l: "elements loadedApp = []" by (simp add: example_defs)
  show ?thesis
    using cleanup_after_stream[OF f, of "''user''"]
    by (simp add: l example_defs fragments_def chunkCandidates_def candidateParts_def
        isThought_def isDisplayText_def)
qed

subsection \<open>C9: which map action a query starts\<close>

text \<open>
  Claim C9 as stated fails for a property that is present and empty: the query
  \<^verbatim>\<open>{location: ''}\<close> has its \<^verbatim>\<open>location\<close> present, yet \<^verbatim>\<open>handleMapQuery\<close> does nothing,
  while the view-location action on the empty string would hand a lookup to the
  geocoder.
\<close>

theorem map_query_counterexample:
  "location (viewQuery []) \<noteq> None
   \<and> handleMapQuery (viewQuery []) loadedApp = loadedApp
   \<and> handleViewLocation [] loadedApp \<noteq> loadedApp"
proof -
  have "geocodeRequests (handleViewLocation [] loadedApp) \<noteq> geocodeRequests loadedApp"
    by (simp add: map_defs example_defs)
  then have "handleViewLocation [] loadedApp \<noteq> loadedApp" by auto
  then show ?thesis by (simp add: handleMapQuery_def viewQuery_def)
qed

text \<open>
  Claim C9, amended: "present" is "present and not the empty string". With a non-empty
  \<^verbatim>\<open>location\<close> the query is the view-location action on it, whatever \<^verbatim>\<open>origin\<close> and
  \<^verbatim>\<open>destination\<close> are; without one and with non-empty \<^verbatim>\<open>origin\<close> and \<^verbatim>\<open>destination\<close> it
  is the directions action on them; in every other case it does nothing. On an
  initialised map a lookup reaches the geocoder exactly in the first case and the
  directions service exactly in the second.
\<close>

theorem map_query_dispatch:
  "(truthyStr (location params)
      \<longrightarrow> handleMapQuery params s = handleViewLocation (the (location params)) s)
   \<and> (\<not> truthyStr (location params) \<and> truthyStr (origin params) \<and> truthyStr (destination params)
      \<longrightarrow> handleMapQuery params s
            = handleDirections (the (origin params)) (the (destination params)) s)
   \<and> (\<not> truthyStr (location params) \<and> \<not> (truthyStr (origin params) \<and> truthyStr (destination params))
      \<longrightarrow> handleMapQuery params s = s)
   \<and> (mapInitialized s \<and> geocoder s \<and> directionsService s
      \<longrightarrow> (geocodeRequests (handleMapQuery params s) \<noteq> geocodeRequests s
             \<longleftrightarrow> truthyStr (location params))
        \<and> (routeRequests (handleMapQuery params s) \<noteq> routeRequests s
             \<longleftrightarrow> \<not> truthyStr (location params) \<and> truthyStr (origin params)
                 \<and> truthyStr (destination params)))"
  by (simp add: handleMapQuery_def handleViewLocation_def handleDirections_def
      clearMapElements_def Let_def)

text \<open>
  The amended C9 at a query with all three properties, a query with origin and
  destination, a query with an origin only, and a query with a location only.
\<close>

theorem map_query_dispatch_witness:
  "handleMapQuery \<lparr>location = Some ''Pisa'', origin = Some ''Rome'', destination = Some ''Oslo''\<rparr>
       loadedApp = handleViewLocation ''Pisa'' loadedApp
   \<and> handleMapQuery (routeQuery ''Rome'' ''Oslo'') loadedApp
       = handleDirections ''Rome'' ''Oslo'' loadedApp
   \<and> handleMapQuery \<lparr>location = None, origin = Some ''Rome'', destination = None\<rparr> loadedApp
       = loadedApp
   \<and> geocodeRequests (handleMapQuery (viewQuery ''Pisa'') loadedApp) \<noteq> geocodeRequests loadedApp"
proof -
  have i: "mapInitialized loadedApp \<and> geocoder loadedApp \<and> directionsService loadedApp"
    by (simp add: example_defs)
  show ?thesis
    using map_query_dispatch[of "\<lparr>location = Some ''Pisa'', origin = Some ''Rome'', destination = Some ''Oslo''\<rparr>" loadedApp]
      map_query_dispatch[of "routeQuery ''Rome'' ''Oslo''" loadedApp]
      map_query_dispatch[of "\<lparr>location = None, origin = Some ''Rome'', destination = None\<rparr>" loadedApp]
      map_query_dispatch[of "viewQuery ''Pisa''" loadedApp] i
    by (auto simp: viewQuery_def routeQuery_def)
qed

subsection \<open>C10: the map shows one intent at a time\<close>

text \<open>
  Claim C10 at two location queries that arrive before the geocoder answers the first:
  each query clears the map when it arrives, each callback adds its marker when it runs,
  and the second callback overwrites the field that held the first marker. The map then
  shows two location markers; the field \<^verbatim>\<open>marker\<close> holds the second only, and the next
  map action removes that one and leaves the first on the map.
\<close>

theorem overlapping_lookups_two_markers:
  "map_option mapChildren (run overlappingLookups loadedApp)
     = Some [Marker3DElement 0 (withAltitude (geometry_location paris) 0) ''Paris'',
             Marker3DElement 1 (withAltitude (geometry_location rome) 0) ''Rome'']
   \<and> map_option marker (run overlappingLookups loadedApp)
     = Some (Some (Marker3DElement 1 (withAltitude (geometry_location rome) 0) ''Rome''))
   \<and> map_option mapChildren (run (overlappingLookups @ [MapQuery (viewQuery ''Oslo'')]) loadedApp)
     = Some [Marker3DElement 0 (withAltitude (geometry_location paris) 0) ''Paris'']"
  by (simp add: map_defs map_example_defs example_defs)

text \<open>The run above leaves two markers on the map.\<close>

theorem overlapping_lookups_two_markers_witness:
  "map_option (\<lambda>s. length (filter isMarker (mapChildren s))) (run overlappingLookups loadedApp)
     = Some 2"
proof -
  have "run overlappingLookups loadedApp \<noteq> None"
    by (simp add: map_defs map_example_defs example_defs)
  then show ?thesis
    using overlapping_lookups_two_markers by (auto simp: isMarker_def)
qed

end
